theory Spec2Isabelle
  imports Main
begin

section \<open>Data model: FX nodes, the node heap, matches\<close>

text \<open>
  The two source files work on \<^verbatim>\<open>torch.fx\<close> graphs. A \<^verbatim>\<open>Node\<close> is a Python object
  that is shared by reference and mutated in place (\<^verbatim>\<open>node.meta = ...\<close>,
  \<^verbatim>\<open>node.args = ...\<close>), so nodes live in an explicit heap: a total function from node
  identities to node records (a Python reference always points to an object, hence no
  dangling identity). Only the three targets the source compares against are told apart;
  every other operator is \<open>Other_target\<close>.
\<close>

type_synonym node_id = nat

datatype target =
    Aten_convolution_default
  | Aten_native_batch_norm_legit_default
  | Operator_getitem
  | Other_target string

text \<open>
  An argument of a node is another node, \<^verbatim>\<open>None\<close>, or a literal. The source only ever
  asks \<^verbatim>\<open>isinstance(a, Node)\<close> and \<^verbatim>\<open>a is not None\<close>, and copies arguments around.
\<close>

datatype arg =
    Arg_node node_id
  | Arg_none
  | Arg_int int
  | Arg_bool bool
  | Arg_list "arg list"
  | Arg_other string

text \<open>
  \<^verbatim>\<open>type(None)\<close> and the module classes stored in \<^verbatim>\<open>nn_module_stack\<close>.
\<close>

datatype py_type = NoneType | Module_class string

text \<open>
  \<^verbatim>\<open>Node.meta\<close> is a dictionary with string keys. The only key the source reads is
  \<^verbatim>\<open>"nn_module_stack"\<close>, whose value is an ordered dictionary from a key to a pair
  (module path, module type); it is kept as a typed field (\<open>None\<close> when the key is
  absent or holds \<^verbatim>\<open>None\<close>, which \<^verbatim>\<open>meta.get("nn_module_stack", None)\<close> does not
  tell apart). All other entries (stack traces, quantization annotations) are opaque.
\<close>

type_synonym module_stack = "(string \<times> (string \<times> py_type)) list"

record node_meta =
  nn_module_stack :: "module_stack option"
  other_meta :: "string \<rightharpoonup> string"

record node =
  name :: string
  target :: target
  args :: "arg list"
  meta :: node_meta

type_synonym heap = "node_id \<Rightarrow> node"

text \<open>
  \<^verbatim>\<open>InternalMatch.nodes_map\<close> / \<^verbatim>\<open>ReplacedPatterns.nodes_map\<close>: an insertion-ordered
  dictionary from pattern nodes to nodes of the original graph. A value is \<^verbatim>\<open>None\<close>
  when the pattern placeholder was matched against an absent optional argument
  (\<^verbatim>\<open># bias can be None\<close>). The association list keeps the iteration order of
  \<^verbatim>\<open>.items()\<close>.
\<close>

type_synonym nodes_map = "(node_id \<times> node_id option) list"

record replaced_patterns =
  anchor :: node_id
  nodes_map :: nodes_map
  replacements :: "node_id list"

datatype error =
    AssertionError
  | IndexError
  | AttributeError
  | ValueError string
  | Propagated string

section \<open>Match filters (qat\_utils.py, lines 111--134)\<close>

text \<open>
  \<^verbatim>\<open>
  for _, n in match.nodes_map.items():
      if n.target == torch.ops.aten.convolution.default:
          return n.args[2] is not None
  raise ValueError("Could not find conv node in matched conv + bn pattern")
  \<close>
  \<^verbatim>\<open>n.target\<close> on a \<^verbatim>\<open>None\<close> entry raises \<^verbatim>\<open>AttributeError\<close>; \<^verbatim>\<open>n.args[2]\<close> on a
  tuple with fewer than three elements raises \<^verbatim>\<open>IndexError\<close>. The arguments
  \<^verbatim>\<open>original_graph\<close> and \<^verbatim>\<open>pattern_graph\<close> are never read.
\<close>

fun has_conv_bias_filter :: "heap \<Rightarrow> nodes_map \<Rightarrow> error + bool" where
  "has_conv_bias_filter h [] =
     Inl (ValueError ''Could not find conv node in matched conv + bn pattern'')"
| "has_conv_bias_filter h ((p, None) # rest) = Inl AttributeError"
| "has_conv_bias_filter h ((p, Some n) # rest) =
     (if target (h n) = Aten_convolution_default
      then (if 2 < length (args (h n)) then Inr (args (h n) ! 2 \<noteq> Arg_none)
            else Inl IndexError)
      else has_conv_bias_filter h rest)"

text \<open>
  \<^verbatim>\<open>return not _has_conv_bias_filter(match, original_graph, pattern_graph)\<close>:
  an exception of the callee propagates.
\<close>

definition no_conv_bias_filter :: "heap \<Rightarrow> nodes_map \<Rightarrow> error + bool" where
  "no_conv_bias_filter h m =
     (case has_conv_bias_filter h m of Inl e \<Rightarrow> Inl e | Inr b \<Rightarrow> Inr (\<not> b))"

section \<open>Post-processing of \_fuse\_conv\_bn\_qat (qat\_utils.py, lines 199--229)\<close>

subsection \<open>Climbing from the anchor node (lines 206--213)\<close>

text \<open>
  \<^verbatim>\<open>
  n = replacement_getitem_node
  while replacement_conv_node is None or replacement_bn_node is None:
      if n.target == torch.ops.aten.convolution.default:
          replacement_conv_node = n
      if n.target == torch.ops.aten._native_batch_norm_legit.default:
          replacement_bn_node = n
      assert isinstance(n.args[0], Node)
      n = n.args[0]
  \<close>
  The loop has no bound of its own: on a heap whose first-argument chain is cyclic and
  holds no convolution or no batch norm it runs forever. It is therefore a partial
  function; \<open>None\<close> is "does not return". \<^verbatim>\<open>n.args[0]\<close> on an empty tuple raises
  \<^verbatim>\<open>IndexError\<close> before the assertion is evaluated.
\<close>

partial_function (option) climb ::
  "heap \<Rightarrow> node_id \<Rightarrow> node_id option \<Rightarrow> node_id option \<Rightarrow> (error + node_id \<times> node_id) option"
where
  "climb h n replacement_conv_node replacement_bn_node =
     (case (replacement_conv_node, replacement_bn_node) of
        (Some c, Some b) \<Rightarrow> Some (Inr (c, b))
      | _ \<Rightarrow>
         (let conv' = (if target (h n) = Aten_convolution_default then Some n
                       else replacement_conv_node);
              bn' = (if target (h n) = Aten_native_batch_norm_legit_default then Some n
                     else replacement_bn_node)
          in case args (h n) of
               [] \<Rightarrow> Some (Inl IndexError)
             | Arg_node n' # _ \<Rightarrow> climb h n' conv' bn'
             | _ # _ \<Rightarrow> Some (Inl AssertionError)))"

text \<open>
  The first-argument chain the loop walks along: the node reached from \<open>n\<close> after \<open>k\<close>
  steps, if every node on the way has a node as its first argument.
\<close>

fun chain_nth :: "heap \<Rightarrow> node_id \<Rightarrow> nat \<Rightarrow> node_id option" where
  "chain_nth h n 0 = Some n"
| "chain_nth h n (Suc k) =
     (case args (h n) of Arg_node n' # _ \<Rightarrow> chain_nth h n' k | _ \<Rightarrow> None)"

subsection \<open>Copying metadata and constant arguments (lines 217--228)\<close>

text \<open>
  One iteration of
  \<^verbatim>\<open>
  for match_pattern_node, original_node in r.nodes_map.items():
      if original_node is None:
          continue
      if original_node.target == torch.ops.aten.convolution.default:
          replacement_conv_node.meta = original_node.meta
          replacement_conv_node.args = replacement_conv_node.args[:3] + original_node.args[3:]
      if original_node.target == torch.ops.aten._native_batch_norm_legit.default:
          replacement_bn_node.meta = original_node.meta
      if original_node.target == operator.getitem:
          replacement_getitem_node.meta = original_node.meta
  \<close>
  The assignment of \<^verbatim>\<open>meta\<close> shares the dictionary object; nothing in this function
  mutates a metadata dictionary afterwards, so copying its content is the same here.
  The three \<^verbatim>\<open>if\<close>s are sequential, each reading the heap the previous one left.
\<close>

definition copy_conv :: "node_id \<Rightarrow> node_id \<Rightarrow> heap \<Rightarrow> heap" where
  "copy_conv replacement_conv_node original_node h =
     (if target (h original_node) = Aten_convolution_default then
        (let h1 = h(replacement_conv_node :=
                      (h replacement_conv_node)\<lparr>meta := meta (h original_node)\<rparr>)
         in h1(replacement_conv_node :=
                 (h1 replacement_conv_node)
                   \<lparr>args := take 3 (args (h1 replacement_conv_node))
                              @ drop 3 (args (h1 original_node))\<rparr>))
      else h)"

definition copy_meta_if :: "target \<Rightarrow> node_id \<Rightarrow> node_id \<Rightarrow> heap \<Rightarrow> heap" where
  "copy_meta_if t replacement_node original_node h =
     (if target (h original_node) = t then
        h(replacement_node := (h replacement_node)\<lparr>meta := meta (h original_node)\<rparr>)
      else h)"

definition copy_step ::
  "node_id \<Rightarrow> node_id \<Rightarrow> node_id \<Rightarrow> heap \<Rightarrow> node_id option \<Rightarrow> heap" where
  "copy_step replacement_conv_node replacement_bn_node replacement_getitem_node h original_node =
     (case original_node of
        None \<Rightarrow> h
      | Some orig \<Rightarrow>
          copy_meta_if Operator_getitem replacement_getitem_node orig
            (copy_meta_if Aten_native_batch_norm_legit_default replacement_bn_node orig
               (copy_conv replacement_conv_node orig h)))"

definition copy_loop :: "node_id \<Rightarrow> node_id \<Rightarrow> node_id \<Rightarrow> heap \<Rightarrow> nodes_map \<Rightarrow> heap" where
  "copy_loop replacement_conv_node replacement_bn_node replacement_getitem_node h m =
     foldl (copy_step replacement_conv_node replacement_bn_node replacement_getitem_node)
       h (map snd m)"

subsection \<open>One replacement result, and the loop over all of them (lines 199--229)\<close>

text \<open>
  \<^verbatim>\<open>
  assert len(r.replacements) == 1, "expected only one replacement node"
  replacement_getitem_node = r.replacements[0]
  assert replacement_getitem_node.target == operator.getitem
  \<close>
  followed by the climb and the copy loop.
\<close>

definition post_process_one :: "heap \<Rightarrow> replaced_patterns \<Rightarrow> (error + heap) option" where
  "post_process_one h r =
     (case replacements r of
        [replacement_getitem_node] \<Rightarrow>
          (if target (h replacement_getitem_node) = Operator_getitem then
             (case climb h replacement_getitem_node None None of
                None \<Rightarrow> None
              | Some (Inl e) \<Rightarrow> Some (Inl e)
              | Some (Inr (replacement_conv_node, replacement_bn_node)) \<Rightarrow>
                  Some (Inr (copy_loop replacement_conv_node replacement_bn_node
                               replacement_getitem_node h (nodes_map r))))
           else Some (Inl AssertionError))
      | _ \<Rightarrow> Some (Inl AssertionError))"

text \<open>
  \<^verbatim>\<open>for r in replacements_with_conv_bias + replacements_no_conv_bias:\<close> the first
  exception ends the loop.
\<close>

fun post_process_all :: "heap \<Rightarrow> replaced_patterns list \<Rightarrow> (error + heap) option" where
  "post_process_all h [] = Some (Inr h)"
| "post_process_all h (r # rs) =
     (case post_process_one h r of
        None \<Rightarrow> None
      | Some (Inl e) \<Rightarrow> Some (Inl e)
      | Some (Inr h') \<Rightarrow> post_process_all h' rs)"

definition fuse_conv_bn_qat_post_processing ::
  "heap \<Rightarrow> replaced_patterns list \<Rightarrow> replaced_patterns list \<Rightarrow> (error + heap) option" where
  "fuse_conv_bn_qat_post_processing h replacements_with_conv_bias replacements_no_conv_bias =
     post_process_all h (replacements_with_conv_bias @ replacements_no_conv_bias)"

section \<open>Pattern library (qat\_utils.py, lines 22--90)\<close>

text \<open>
  The pattern functions are straight-line programs over \<^verbatim>\<open>torch\<close> operators. The
  operators themselves are not part of the two source files, so they are parameters: a
  record of operations over an arbitrary tensor type \<open>'t\<close>, each of which may raise.
  The float literal \<^verbatim>\<open>1e-5\<close> is kept as written (mantissa and decimal exponent).
\<close>

datatype py_float = Float_e int int

record 't torch_ops =
  shape_len :: "'t \<Rightarrow> nat"
  add_scalar :: "'t \<Rightarrow> py_float \<Rightarrow> error + 't"
  torch_sqrt :: "'t \<Rightarrow> error + 't"
  tensor_div :: "'t \<Rightarrow> 't \<Rightarrow> error + 't"
  tensor_mul :: "'t \<Rightarrow> 't \<Rightarrow> error + 't"
  tensor_add :: "'t \<Rightarrow> 't \<Rightarrow> error + 't"
  reshape :: "'t \<Rightarrow> int list \<Rightarrow> error + 't"
  zeros_like :: "'t \<Rightarrow> 't \<Rightarrow> error + 't"
  conv2d :: "'t \<Rightarrow> 't \<Rightarrow> 't option \<Rightarrow> error + 't"
  batch_norm :: "'t \<Rightarrow> 't \<Rightarrow> 't \<Rightarrow> 't \<Rightarrow> 't \<Rightarrow> bool \<Rightarrow> py_float option \<Rightarrow> error + 't"

text \<open>Sequencing of statements that may raise: the first exception wins.\<close>

definition and_then :: "error + 'a \<Rightarrow> ('a \<Rightarrow> error + 'b) \<Rightarrow> error + 'b" where
  "and_then m f = (case m of Inl e \<Rightarrow> Inl e | Inr v \<Rightarrow> f v)"

text \<open>\<^verbatim>\<open>xs[i] = v\<close> on a Python list with a non-negative index.\<close>

definition list_set :: "'a list \<Rightarrow> nat \<Rightarrow> 'a \<Rightarrow> error + 'a list" where
  "list_set xs i v = (if i < length xs then Inr (xs[i := v]) else Inl IndexError)"

text \<open>
  \<^verbatim>\<open>
  x = F.conv2d(x, conv_weight, conv_bias)
  x = F.batch_norm(x, bn_running_mean, bn_running_var, bn_weight, bn_bias, training=True)
  \<close>
\<close>

definition conv2d_bn_pattern ::
  "'t torch_ops \<Rightarrow> 't \<Rightarrow> 't \<Rightarrow> 't \<Rightarrow> 't \<Rightarrow> 't \<Rightarrow> 't \<Rightarrow> 't \<Rightarrow> error + 't" where
  "conv2d_bn_pattern ops x conv_weight conv_bias bn_weight bn_bias bn_running_mean bn_running_var =
     and_then (conv2d ops x conv_weight (Some conv_bias)) (\<lambda>x1.
       batch_norm ops x1 bn_running_mean bn_running_var bn_weight bn_bias True None)"

text \<open>
  \<^verbatim>\<open>
  bn_eps = 1e-5
  running_std = torch.sqrt(bn_running_var + bn_eps)
  scale_factor = bn_weight / running_std
  weight_shape = [1] * len(conv_weight.shape)
  weight_shape[0] = -1
  bias_shape = [1] * len(conv_weight.shape)
  bias_shape[1] = -1
  scaled_weight = conv_weight * scale_factor.reshape(weight_shape)
  zero_bias = torch.zeros_like(conv_bias, dtype=x.dtype)
  x = F.conv2d(x, scaled_weight, zero_bias)
  x = x / scale_factor.reshape(bias_shape)
  x = x + conv_bias.reshape(bias_shape)
  x = F.batch_norm(x, bn_running_mean, bn_running_var, bn_weight, bn_bias, training=True, eps=bn_eps)
  \<close>
\<close>

definition fused_qat_conv2d_bn_pattern ::
  "'t torch_ops \<Rightarrow> 't \<Rightarrow> 't \<Rightarrow> 't \<Rightarrow> 't \<Rightarrow> 't \<Rightarrow> 't \<Rightarrow> 't \<Rightarrow> error + 't" where
  "fused_qat_conv2d_bn_pattern ops x conv_weight conv_bias bn_weight bn_bias
       bn_running_mean bn_running_var =
     (let bn_eps = Float_e 1 (- 5) in
      and_then (add_scalar ops bn_running_var bn_eps) (\<lambda>var_eps.
      and_then (torch_sqrt ops var_eps) (\<lambda>running_std.
      and_then (tensor_div ops bn_weight running_std) (\<lambda>scale_factor.
      and_then (list_set (replicate (shape_len ops conv_weight) 1) 0 (- 1)) (\<lambda>weight_shape.
      and_then (list_set (replicate (shape_len ops conv_weight) 1) 1 (- 1)) (\<lambda>bias_shape.
      and_then (reshape ops scale_factor weight_shape) (\<lambda>scale_w.
      and_then (tensor_mul ops conv_weight scale_w) (\<lambda>scaled_weight.
      and_then (zeros_like ops conv_bias x) (\<lambda>zero_bias.
      and_then (conv2d ops x scaled_weight (Some zero_bias)) (\<lambda>x1.
      and_then (reshape ops scale_factor bias_shape) (\<lambda>scale_b.
      and_then (tensor_div ops x1 scale_b) (\<lambda>x2.
      and_then (reshape ops conv_bias bias_shape) (\<lambda>bias_b.
      and_then (tensor_add ops x2 bias_b) (\<lambda>x3.
        batch_norm ops x3 bn_running_mean bn_running_var bn_weight bn_bias True
          (Some bn_eps)))))))))))))))"

text \<open>
  \<^verbatim>\<open>
  bn_eps = 1e-5
  running_std = torch.sqrt(bn_running_var + bn_eps)
  scale_factor = bn_weight / running_std
  weight_shape = [1] * len(conv_weight.shape)
  weight_shape[0] = -1
  bias_shape = [1] * len(conv_weight.shape)
  bias_shape[1] = -1
  scaled_weight = conv_weight * scale_factor.reshape(weight_shape)
  x = F.conv2d(x, scaled_weight, None)
  x = x / scale_factor.reshape(bias_shape)
  x = F.batch_norm(x, bn_running_mean, bn_running_var, bn_weight, bn_bias, training=True, eps=bn_eps)
  \<close>
\<close>

definition fused_qat_conv2d_bn_pattern_no_conv_bias ::
  "'t torch_ops \<Rightarrow> 't \<Rightarrow> 't \<Rightarrow> 't \<Rightarrow> 't \<Rightarrow> 't \<Rightarrow> 't \<Rightarrow> 't \<Rightarrow> error + 't" where
  "fused_qat_conv2d_bn_pattern_no_conv_bias ops x conv_weight conv_bias bn_weight bn_bias
       bn_running_mean bn_running_var =
     (let bn_eps = Float_e 1 (- 5) in
      and_then (add_scalar ops bn_running_var bn_eps) (\<lambda>var_eps.
      and_then (torch_sqrt ops var_eps) (\<lambda>running_std.
      and_then (tensor_div ops bn_weight running_std) (\<lambda>scale_factor.
      and_then (list_set (replicate (shape_len ops conv_weight) 1) 0 (- 1)) (\<lambda>weight_shape.
      and_then (list_set (replicate (shape_len ops conv_weight) 1) 1 (- 1)) (\<lambda>bias_shape.
      and_then (reshape ops scale_factor weight_shape) (\<lambda>scale_w.
      and_then (tensor_mul ops conv_weight scale_w) (\<lambda>scaled_weight.
      and_then (conv2d ops x scaled_weight None) (\<lambda>x1.
      and_then (reshape ops scale_factor bias_shape) (\<lambda>scale_b.
      and_then (tensor_div ops x1 scale_b) (\<lambda>x2.
        batch_norm ops x2 bn_running_mean bn_running_var bn_weight bn_bias True
          (Some bn_eps))))))))))))"

section \<open>Pipeline glue (\_quantize\_pt2e.py)\<close>

text \<open>
  A \<^verbatim>\<open>GraphModule\<close>: the heap of its node objects and the ordered list of the nodes
  that are in \<^verbatim>\<open>model.graph.nodes\<close>.
\<close>

record graph_module =
  node_heap :: heap
  graph_nodes :: "node_id list"

definition graph_node_list :: "graph_module \<Rightarrow> node list" where
  "graph_node_list model = map (node_heap model) (graph_nodes model)"

text \<open>
  \<^verbatim>\<open>s.split(sep)\<close> for a one-character separator: the pieces between the
  separators, always at least one piece.
\<close>

fun split_str :: "string \<Rightarrow> char \<Rightarrow> string list" where
  "split_str [] sep = [[]]"
| "split_str (c # cs) sep =
     (if c = sep then [] # split_str cs sep
      else (case split_str cs sep of [] \<Rightarrow> [[c]] | w # ws \<Rightarrow> (c # w) # ws))"

type_synonym scope = "string \<times> py_type"

text \<open>
  The body of the loop of \<^verbatim>\<open>prepare_pt2e\<close> (lines 25--30):
  \<^verbatim>\<open>
  nn_module_stack = n.meta.get("nn_module_stack", None)
  current_scope = ("", type(None))
  if nn_module_stack:
      bt = list(nn_module_stack.values())[-1]
      current_scope = (bt[0].split(".")[-1], bt[1])
  node_name_to_scope[n.name] = current_scope
  \<close>
  A dictionary is true when it is not empty, so \<^verbatim>\<open>[-1]\<close> is applied to a non-empty
  list; \<^verbatim>\<open>split\<close> never returns an empty list.
\<close>

definition current_scope :: "node \<Rightarrow> scope" where
  "current_scope n =
     (case nn_module_stack (meta n) of
        None \<Rightarrow> ('''', NoneType)
      | Some stack \<Rightarrow>
          (if stack = [] then ('''', NoneType)
           else (let bt = snd (last stack)
                 in (last (split_str (fst bt) CHR ''.''), snd bt))))"

definition scope_step :: "(string \<rightharpoonup> scope) \<Rightarrow> node \<Rightarrow> (string \<rightharpoonup> scope)" where
  "scope_step node_name_to_scope n = node_name_to_scope(name n \<mapsto> current_scope n)"

definition node_name_to_scope :: "graph_module \<Rightarrow> (string \<rightharpoonup> scope)" where
  "node_name_to_scope model = foldl scope_step Map.empty (graph_node_list model)"

text \<open>
  The functions \<^verbatim>\<open>prepare_pt2e\<close> and \<^verbatim>\<open>convert_pt2e\<close> call are imported from other
  modules of the package (\<^verbatim>\<open>._pt2e.utils\<close>, \<^verbatim>\<open>.fx\<close>, \<^verbatim>\<open>.quantize_fx\<close>); they are
  parameters. Each takes the graph module (and mutates it or returns a new one) and may
  raise. The types of the quantization configuration, the example inputs and the backend
  configuration are left open.
\<close>

record ('q, 'e, 'b) collaborators =
  fuse_conv_bn :: "graph_module \<Rightarrow> error + graph_module"
  prepare :: "graph_module \<Rightarrow> 'q \<Rightarrow> bool \<Rightarrow> (string \<rightharpoonup> scope) \<Rightarrow> 'e \<Rightarrow> 'b
                \<Rightarrow> error + graph_module"
  rearrange_weight_observer_for_decomposed_linear :: "graph_module \<Rightarrow> error + graph_module"
  convert_to_reference_decomposed_fx :: "graph_module \<Rightarrow> error + graph_module"

text \<open>
  Which function of the package is called, with which arguments. \<open>Call_fuse_conv_bn\<close> is
  \<^verbatim>\<open>_pt2e.utils._fuse_conv_bn_\<close> (a name cannot end with an underscore here); \<open>Call_fuse_conv_bn_qat\<close> is
  \<^verbatim>\<open>_pt2e.qat_utils._fuse_conv_bn_qat\<close>, the function of the first source file.
\<close>

datatype ('q, 'e, 'b) call =
    Call_fuse_conv_bn graph_module
  | Call_fuse_conv_bn_qat graph_module
  | Call_prepare graph_module 'q bool "string \<rightharpoonup> scope" 'e 'b
  | Call_rearrange_weight_observer_for_decomposed_linear graph_module
  | Call_convert_to_reference_decomposed_fx graph_module

text \<open>
  \<^verbatim>\<open>
  _fuse_conv_bn_(model)
  model = prepare(model, qconfig_mapping, False, node_name_to_scope, example_inputs,
                  backend_config=backend_config)
  _rearrange_weight_observer_for_decomposed_linear(model)
  return model
  \<close>
  The result is the returned module (or the exception) together with the calls made by
  \<^verbatim>\<open>prepare_pt2e\<close> itself, in order. The scope map is built from the graph as it is on
  entry, before the fusion mutates it.
\<close>

definition prepare_pt2e ::
  "('q, 'e, 'b) collaborators \<Rightarrow> graph_module \<Rightarrow> 'q \<Rightarrow> 'e \<Rightarrow> 'b
     \<Rightarrow> (error + graph_module) \<times> ('q, 'e, 'b) call list" where
  "prepare_pt2e ext model qconfig_mapping example_inputs backend_config =
     (let scopes = node_name_to_scope model;
          log1 = [Call_fuse_conv_bn model]
      in case fuse_conv_bn ext model of
           Inl e \<Rightarrow> (Inl e, log1)
         | Inr model1 \<Rightarrow>
             (let log2 = log1 @ [Call_prepare model1 qconfig_mapping False scopes
                                   example_inputs backend_config]
              in case prepare ext model1 qconfig_mapping False scopes example_inputs
                        backend_config of
                   Inl e \<Rightarrow> (Inl e, log2)
                 | Inr model2 \<Rightarrow>
                     (let log3 = log2 @ [Call_rearrange_weight_observer_for_decomposed_linear model2]
                      in case rearrange_weight_observer_for_decomposed_linear ext model2 of
                           Inl e \<Rightarrow> (Inl e, log3)
                         | Inr model3 \<Rightarrow> (Inr model3, log3))))"

text \<open>\<^verbatim>\<open>return _convert_to_reference_decomposed_fx(model)\<close>\<close>

definition convert_pt2e ::
  "('q, 'e, 'b) collaborators \<Rightarrow> graph_module
     \<Rightarrow> (error + graph_module) \<times> ('q, 'e, 'b) call list" where
  "convert_pt2e ext model =
     (convert_to_reference_decomposed_fx ext model,
      [Call_convert_to_reference_decomposed_fx model])"

text \<open>Reading the call log.\<close>

fun is_prepare_call :: "('q, 'e, 'b) call \<Rightarrow> bool" where
  "is_prepare_call (Call_prepare m q f s e b) = True"
| "is_prepare_call c = False"

fun is_qat_flags :: "('q, 'e, 'b) call list \<Rightarrow> bool list" where
  "is_qat_flags [] = []"
| "is_qat_flags (Call_prepare m q f s e b # cs) = f # is_qat_flags cs"
| "is_qat_flags (c # cs) = is_qat_flags cs"

definition calls_before_prepare :: "('q, 'e, 'b) call list \<Rightarrow> ('q, 'e, 'b) call list" where
  "calls_before_prepare cs = takeWhile (\<lambda>c. \<not> is_prepare_call c) cs"

section \<open>Concrete graphs\<close>

text \<open>
  A host graph in which one convolution feeds a second convolution that is followed by a
  batch norm: \<open>x \<rightarrow> conv1 \<rightarrow> conv2 \<rightarrow> bn \<rightarrow> getitem\<close>. Nodes 1 to 4 are the original
  nodes (conv1 has stride 2 and no bias, conv2 has stride 3 and a bias); nodes 10 to 14
  are the backbone of the fused replacement with bias
  (\<open>conv \<rightarrow> div \<rightarrow> add \<rightarrow> bn \<rightarrow> getitem\<close>) as the rewriter inserts it, with the
  literal arguments of the traced replacement pattern (stride 1). Every other identity is
  a placeholder or parameter node without arguments.
\<close>

definition empty_meta :: node_meta where
  "empty_meta = \<lparr>nn_module_stack = None, other_meta = Map.empty\<rparr>"

definition placeholder_node :: "string \<Rightarrow> node" where
  "placeholder_node nm =
     \<lparr>name = nm, target = Other_target ''placeholder'', args = [], meta = empty_meta\<rparr>"

definition heap_of :: "(node_id \<times> node) list \<Rightarrow> heap" where
  "heap_of xs = (\<lambda>i. case map_of xs i of Some n \<Rightarrow> n | None \<Rightarrow> placeholder_node [])"

definition module_meta :: "string \<Rightarrow> string \<Rightarrow> node_meta" where
  "module_meta path cls =
     \<lparr>nn_module_stack = Some [(''L__self__'', (''model'', Module_class ''Net'')),
                               (''L__self___'' @ path, (''model.'' @ path, Module_class cls))],
      other_meta = [''stack_trace'' \<mapsto> path]\<rparr>"

definition conv_consts :: "int \<Rightarrow> arg list" where
  "conv_consts stride =
     [Arg_list [Arg_int stride, Arg_int stride], Arg_list [Arg_int 0, Arg_int 0],
      Arg_list [Arg_int 1, Arg_int 1], Arg_bool False, Arg_list [Arg_int 0, Arg_int 0],
      Arg_int 1]"

definition bn_consts :: "arg list" where
  "bn_consts = [Arg_node 23, Arg_node 24, Arg_node 25, Arg_node 26, Arg_bool True,
                Arg_other ''0.1'', Arg_other ''1e-05'']"

definition stacked_heap :: heap where
  "stacked_heap = heap_of
     [(0, placeholder_node ''arg0''),
      (1, \<lparr>name = ''convolution_default'', target = Aten_convolution_default,
           args = [Arg_node 0, Arg_node 20, Arg_none] @ conv_consts 2,
           meta = module_meta ''conv1'' ''Conv2d''\<rparr>),
      (2, \<lparr>name = ''convolution_default_1'', target = Aten_convolution_default,
           args = [Arg_node 1, Arg_node 21, Arg_node 22] @ conv_consts 3,
           meta = module_meta ''conv2'' ''Conv2d''\<rparr>),
      (3, \<lparr>name = ''native_batch_norm_legit_default'',
           target = Aten_native_batch_norm_legit_default,
           args = Arg_node 2 # bn_consts, meta = module_meta ''bn'' ''BatchNorm2d''\<rparr>),
      (4, \<lparr>name = ''getitem'', target = Operator_getitem,
           args = [Arg_node 3, Arg_int 0], meta = module_meta ''bn'' ''BatchNorm2d''\<rparr>),
      (10, \<lparr>name = ''convolution_default_2'', target = Aten_convolution_default,
            args = [Arg_node 1, Arg_node 30, Arg_node 31] @ conv_consts 1, meta = empty_meta\<rparr>),
      (11, \<lparr>name = ''div_tensor'', target = Other_target ''aten.div.Tensor'',
            args = [Arg_node 10, Arg_node 32], meta = empty_meta\<rparr>),
      (12, \<lparr>name = ''add_tensor'', target = Other_target ''aten.add.Tensor'',
            args = [Arg_node 11, Arg_node 33], meta = empty_meta\<rparr>),
      (13, \<lparr>name = ''native_batch_norm_legit_default_1'',
            target = Aten_native_batch_norm_legit_default,
            args = Arg_node 12 # bn_consts, meta = empty_meta\<rparr>),
      (14, \<lparr>name = ''getitem_1'', target = Operator_getitem,
            args = [Arg_node 13, Arg_int 0], meta = empty_meta\<rparr>)]"

text \<open>
  The match of the pattern \<open>conv \<rightarrow> bn \<rightarrow> getitem\<close> on conv2, in the order the entries
  were inserted: the pattern's getitem, batch norm and convolution nodes (40, 41, 42),
  then its placeholders \<open>x\<close>, \<open>conv_weight\<close>, \<open>conv_bias\<close> (43, 44, 45) and the
  four batch-norm placeholders. The placeholder \<open>x\<close> is matched by the node that
  produces the input of conv2, which is conv1.
\<close>

definition stacked_match :: nodes_map where
  "stacked_match =
     [(40, Some 4), (41, Some 3), (42, Some 2), (43, Some 1), (44, Some 21), (45, Some 22),
      (46, Some 23), (47, Some 24), (48, Some 25), (49, Some 26)]"

definition stacked_result :: replaced_patterns where
  "stacked_result = \<lparr>anchor = 4, nodes_map = stacked_match, replacements = [14]\<rparr>"

definition stacked_model :: graph_module where
  "stacked_model = \<lparr>node_heap = stacked_heap, graph_nodes = [0, 1, 2, 3, 4]\<rparr>"

text \<open>
  The match map of a convolution without bias, as the matcher fills it: the placeholder
  \<open>conv_bias\<close> (45) is matched by the absent argument, after the convolution node.
\<close>

definition absent_bias_match :: nodes_map where
  "absent_bias_match =
     [(40, Some 4), (41, Some 3), (42, Some 1), (43, Some 0), (44, Some 20), (45, None),
      (46, Some 23), (47, Some 24), (48, Some 25), (49, Some 26)]"

text \<open>
  A backbone \<open>conv \<rightarrow> bn \<rightarrow> getitem\<close> whose convolution has a literal (\<^verbatim>\<open>None\<close>)
  as its first argument.
\<close>

definition literal_input_heap :: heap where
  "literal_input_heap = heap_of
     [(0, \<lparr>name = ''getitem'', target = Operator_getitem,
           args = [Arg_node 1, Arg_int 0], meta = empty_meta\<rparr>),
      (1, \<lparr>name = ''native_batch_norm_legit_default'',
           target = Aten_native_batch_norm_legit_default,
           args = Arg_node 2 # bn_consts, meta = empty_meta\<rparr>),
      (2, \<lparr>name = ''convolution_default'', target = Aten_convolution_default,
           args = [Arg_none, Arg_node 20, Arg_none] @ conv_consts 1, meta = empty_meta\<rparr>)]"

text \<open>Collaborators that succeed and hand the module back unchanged.\<close>

definition passing_collaborators :: "(unit, unit, unit) collaborators" where
  "passing_collaborators =
     \<lparr>fuse_conv_bn = Inr,
      prepare = (\<lambda>m q is_qat scopes e b. Inr m),
      rearrange_weight_observer_for_decomposed_linear = Inr,
      convert_to_reference_decomposed_fx = Inr\<rparr>"

section \<open>Vocabulary of the properties\<close>

text \<open>
  An entry of a match map that the scan of \<open>has_conv_bias_filter\<close> passes over: it
  holds a node, and the node's target is not the convolution.
\<close>

definition node_not_conv :: "heap \<Rightarrow> node_id \<times> node_id option \<Rightarrow> bool" where
  "node_not_conv h e =
     (case snd e of None \<Rightarrow> False | Some k \<Rightarrow> target (h k) \<noteq> Aten_convolution_default)"

text \<open>
  The original nodes of a match map, in iteration order, without the \<^verbatim>\<open>None\<close> entries.
\<close>

fun originals :: "nodes_map \<Rightarrow> node_id list" where
  "originals [] = []"
| "originals ((p, None) # m) = originals m"
| "originals ((p, Some x) # m) = x # originals m"

text \<open>
  A toy interpretation of the operators on integers, to run the pattern functions:
  a convolution is \<open>x * w + bias\<close>, batch norm and reshape are the identity.
\<close>

definition scalar_ops :: "int torch_ops" where
  "scalar_ops =
     \<lparr>shape_len = (\<lambda>t. 4),
      add_scalar = (\<lambda>t eps. Inr t),
      torch_sqrt = Inr,
      tensor_div = (\<lambda>a b. Inr (a div b)),
      tensor_mul = (\<lambda>a b. Inr (a * b)),
      tensor_add = (\<lambda>a b. Inr (a + b)),
      reshape = (\<lambda>t shape. Inr t),
      zeros_like = (\<lambda>t x. Inr 0),
      conv2d = (\<lambda>x w bias. Inr (x * w + (case bias of None \<Rightarrow> 0 | Some v \<Rightarrow> v))),
      batch_norm = (\<lambda>x mean var w bias training eps. Inr x)\<rparr>"

section \<open>The pattern library\<close>

text \<open>
  C8. The fused pattern without convolution bias does not depend on its \<open>conv_bias\<close>
  argument: any two bias values give the same result (or the same exception). Nor does it
  depend on the tensor addition or on \<open>zeros_like\<close>: no bias-add step and no zero bias
  take part in the computation.
\<close>

theorem no_conv_bias_pattern_ignores_bias:
  "fused_qat_conv2d_bn_pattern_no_conv_bias
       (ops\<lparr>tensor_add := add1, zeros_like := zeros1\<rparr>)
       x conv_weight conv_bias1 bn_weight bn_bias bn_running_mean bn_running_var
   = fused_qat_conv2d_bn_pattern_no_conv_bias
       (ops\<lparr>tensor_add := add2, zeros_like := zeros2\<rparr>)
       x conv_weight conv_bias2 bn_weight bn_bias bn_running_mean bn_running_var"
  by (simp add: fused_qat_conv2d_bn_pattern_no_conv_bias_def)

text \<open>
  The fused pattern with bias does read its bias; the variant without bias returns the
  same value as the variant with a zero bias does.
\<close>

lemma fused_pattern_with_bias_reads_bias:
  "fused_qat_conv2d_bn_pattern scalar_ops 1 1 0 1 0 0 1 = Inr 1"
  "fused_qat_conv2d_bn_pattern scalar_ops 1 1 5 1 0 0 1 = Inr 6"
  "fused_qat_conv2d_bn_pattern_no_conv_bias scalar_ops 1 1 5 1 0 0 1 = Inr 1"
  by (simp_all add: fused_qat_conv2d_bn_pattern_def fused_qat_conv2d_bn_pattern_no_conv_bias_def
        scalar_ops_def and_then_def list_set_def)

section \<open>The match filters\<close>

lemma has_conv_bias_filter_skip:
  "list_all (node_not_conv h) pre \<Longrightarrow>
   has_conv_bias_filter h (pre @ rest) = has_conv_bias_filter h rest"
  by (induction pre) (auto simp: node_not_conv_def split: option.splits)

lemma no_conv_bias_filter_Inr:
  "has_conv_bias_filter h m = Inr b \<Longrightarrow> no_conv_bias_filter h m = Inr (\<not> b)"
  by (simp add: no_conv_bias_filter_def)

lemma no_conv_bias_filter_Inl:
  "has_conv_bias_filter h m = Inl e \<Longrightarrow> no_conv_bias_filter h m = Inl e"
  by (simp add: no_conv_bias_filter_def)

lemma stacked_heap_at:
  "stacked_heap 0 = placeholder_node ''arg0''"
  "stacked_heap (Suc 0) = \<lparr>name = ''convolution_default'', target = Aten_convolution_default,
           args = [Arg_node 0, Arg_node 20, Arg_none] @ conv_consts 2,
           meta = module_meta ''conv1'' ''Conv2d''\<rparr>"
  "stacked_heap 1 = \<lparr>name = ''convolution_default'', target = Aten_convolution_default,
           args = [Arg_node 0, Arg_node 20, Arg_none] @ conv_consts 2,
           meta = module_meta ''conv1'' ''Conv2d''\<rparr>"
  "stacked_heap 2 = \<lparr>name = ''convolution_default_1'', target = Aten_convolution_default,
           args = [Arg_node 1, Arg_node 21, Arg_node 22] @ conv_consts 3,
           meta = module_meta ''conv2'' ''Conv2d''\<rparr>"
  "stacked_heap 3 = \<lparr>name = ''native_batch_norm_legit_default'',
           target = Aten_native_batch_norm_legit_default,
           args = Arg_node 2 # bn_consts, meta = module_meta ''bn'' ''BatchNorm2d''\<rparr>"
  "stacked_heap 4 = \<lparr>name = ''getitem'', target = Operator_getitem,
           args = [Arg_node 3, Arg_int 0], meta = module_meta ''bn'' ''BatchNorm2d''\<rparr>"
  "stacked_heap 10 = \<lparr>name = ''convolution_default_2'', target = Aten_convolution_default,
            args = [Arg_node 1, Arg_node 30, Arg_node 31] @ conv_consts 1, meta = empty_meta\<rparr>"
  "stacked_heap 11 = \<lparr>name = ''div_tensor'', target = Other_target ''aten.div.Tensor'',
            args = [Arg_node 10, Arg_node 32], meta = empty_meta\<rparr>"
  "stacked_heap 12 = \<lparr>name = ''add_tensor'', target = Other_target ''aten.add.Tensor'',
            args = [Arg_node 11, Arg_node 33], meta = empty_meta\<rparr>"
  "stacked_heap 13 = \<lparr>name = ''native_batch_norm_legit_default_1'',
            target = Aten_native_batch_norm_legit_default,
            args = Arg_node 12 # bn_consts, meta = empty_meta\<rparr>"
  "stacked_heap 14 = \<lparr>name = ''getitem_1'', target = Operator_getitem,
            args = [Arg_node 13, Arg_int 0], meta = empty_meta\<rparr>"
  "stacked_heap 21 = placeholder_node []"
  "stacked_heap 22 = placeholder_node []"
  "stacked_heap 23 = placeholder_node []"
  "stacked_heap 24 = placeholder_node []"
  "stacked_heap 25 = placeholder_node []"
  "stacked_heap 26 = placeholder_node []"
  by (simp_all add: stacked_heap_def heap_of_def)

lemma literal_input_heap_at:
  "literal_input_heap (Suc 0) = \<lparr>name = ''native_batch_norm_legit_default'',
           target = Aten_native_batch_norm_legit_default,
           args = Arg_node 2 # bn_consts, meta = empty_meta\<rparr>"
  "literal_input_heap 0 = \<lparr>name = ''getitem'', target = Operator_getitem,
           args = [Arg_node 1, Arg_int 0], meta = empty_meta\<rparr>"
  "literal_input_heap 1 = \<lparr>name = ''native_batch_norm_legit_default'',
           target = Aten_native_batch_norm_legit_default,
           args = Arg_node 2 # bn_consts, meta = empty_meta\<rparr>"
  "literal_input_heap 2 = \<lparr>name = ''convolution_default'', target = Aten_convolution_default,
           args = [Arg_none, Arg_node 20, Arg_none] @ conv_consts 1, meta = empty_meta\<rparr>"
  by (simp_all add: literal_input_heap_def heap_of_def)

lemma has_conv_bias_filter_stacked:
  "has_conv_bias_filter stacked_heap stacked_match = Inr True"
  by (simp add: stacked_match_def stacked_heap_at)

text \<open>
  The matcher fills the match map from the anchor upwards: the pattern's own getitem,
  batch-norm and convolution nodes are entered before the pattern's placeholders (see
  \<open>stacked_match\<close>), and only a placeholder can be matched by an absent argument. In a
  match map handed to the filters, the entries in front of the convolution node are
  therefore nodes; and a convolution node carries the positional arguments of
  \<^verbatim>\<open>aten.convolution\<close> (x, weight, bias, stride, ...), at least three.
\<close>

text \<open>
  C6. The filter scans the matched nodes in iteration order for the first one whose target
  is the convolution: on a match map whose entries in front of that convolution node are
  nodes, it returns whether the node's third positional argument (the bias slot) is not
  \<^verbatim>\<open>None\<close>, so it returns \<open>True\<close> exactly when the bias is present. On a match map
  whose entries are all nodes, none of them with the convolution target, it raises the
  \<open>ValueError\<close> "Could not find conv node ..." and returns no value.
\<close>

theorem has_conv_bias_filter_scan:
  "(list_all (node_not_conv h) m \<longrightarrow>
      has_conv_bias_filter h m =
        Inl (ValueError ''Could not find conv node in matched conv + bn pattern''))
   \<and> (list_all (node_not_conv h) pre \<and> target (h n) = Aten_convolution_default
        \<and> 2 < length (args (h n)) \<longrightarrow>
      has_conv_bias_filter h (pre @ (p, Some n) # post) = Inr (args (h n) ! 2 \<noteq> Arg_none))"
proof (intro conjI impI)
  assume "list_all (node_not_conv h) m"
  then have "has_conv_bias_filter h (m @ []) = has_conv_bias_filter h []"
    by (rule has_conv_bias_filter_skip)
  then show "has_conv_bias_filter h m =
        Inl (ValueError ''Could not find conv node in matched conv + bn pattern'')"
    by simp
qed (simp_all add: has_conv_bias_filter_skip)

theorem has_conv_bias_filter_scan_witness:
  "list_all (node_not_conv stacked_heap) [(40, Some 4), (41, Some 3)]
   \<and> target (stacked_heap 2) = Aten_convolution_default
   \<and> 2 < length (args (stacked_heap 2))
   \<and> stacked_match = [(40, Some 4), (41, Some 3)] @ (42, Some 2) # drop 3 stacked_match
   \<and> has_conv_bias_filter stacked_heap stacked_match = Inr True
   \<and> target (stacked_heap 1) = Aten_convolution_default
   \<and> 2 < length (args (stacked_heap 1))
   \<and> absent_bias_match = [(40, Some 4), (41, Some 3)] @ (42, Some 1) # drop 3 absent_bias_match
   \<and> has_conv_bias_filter stacked_heap absent_bias_match = Inr False
   \<and> has_conv_bias_filter stacked_heap [(41, Some 3), (40, Some 4)]
        = Inl (ValueError ''Could not find conv node in matched conv + bn pattern'')"
proof -
  let ?pre = "[(40, Some 4), (41, Some 3)] :: nodes_map"
  have pre: "list_all (node_not_conv stacked_heap) ?pre"
    by (simp add: node_not_conv_def stacked_heap_at)
  have pre2: "list_all (node_not_conv stacked_heap) [(41, Some 3), (40, Some 4)]"
    by (simp add: node_not_conv_def stacked_heap_at)
  have conv: "target (stacked_heap 2) = Aten_convolution_default"
    and len: "2 < length (args (stacked_heap 2))"
    and third: "(args (stacked_heap 2) ! 2 \<noteq> Arg_none) = True"
    by (simp_all add: stacked_heap_at)
  have conv1: "target (stacked_heap 1) = Aten_convolution_default"
    and len1: "2 < length (args (stacked_heap 1))"
    and third1: "(args (stacked_heap 1) ! 2 \<noteq> Arg_none) = False"
    by (simp_all add: stacked_heap_at)
  have split: "stacked_match = ?pre @ (42, Some 2) # drop 3 stacked_match"
    by (simp add: stacked_match_def)
  have split1: "absent_bias_match = ?pre @ (42, Some 1) # drop 3 absent_bias_match"
    by (simp add: absent_bias_match_def)
  have "has_conv_bias_filter stacked_heap (?pre @ (42, Some 2) # drop 3 stacked_match)
          = Inr (args (stacked_heap 2) ! 2 \<noteq> Arg_none)"
    by (rule mp [OF has_conv_bias_filter_scan
          [where h = stacked_heap and pre = ?pre and n = 2 and p = 42
             and post = "drop 3 stacked_match", THEN conjunct2]
          conjI [OF pre conjI [OF conv len]]])
  then have 1: "has_conv_bias_filter stacked_heap stacked_match = Inr True"
    unfolding third split [symmetric] .
  have "has_conv_bias_filter stacked_heap (?pre @ (42, Some 1) # drop 3 absent_bias_match)
          = Inr (args (stacked_heap 1) ! 2 \<noteq> Arg_none)"
    by (rule mp [OF has_conv_bias_filter_scan
          [where h = stacked_heap and pre = ?pre and n = 1 and p = 42
             and post = "drop 3 absent_bias_match", THEN conjunct2]
          conjI [OF pre conjI [OF conv1 len1]]])
  then have 2: "has_conv_bias_filter stacked_heap absent_bias_match = Inr False"
    unfolding third1 split1 [symmetric] .
  have 3: "has_conv_bias_filter stacked_heap [(41, Some 3), (40, Some 4)]
        = Inl (ValueError ''Could not find conv node in matched conv + bn pattern'')"
    by (rule mp [OF has_conv_bias_filter_scan
          [where h = stacked_heap and m = "[(41, Some 3), (40, Some 4)]", THEN conjunct1]
          pre2])
  show ?thesis
    by (intro conjI) (rule pre conv len split 1 conv1 len1 split1 2 3)+
qed

text \<open>
  C4. \<open>no_conv_bias_filter\<close> returns the negation of what \<open>has_conv_bias_filter\<close> returns.
  On every match map that contains a convolution node, with nodes in front of it, both
  filters return and exactly one of them is true: no match satisfies both filters, and
  none satisfies neither.
\<close>

theorem no_conv_bias_filter_negates:
  "(has_conv_bias_filter h m = Inr b \<longrightarrow> no_conv_bias_filter h m = Inr (\<not> b))
   \<and> (list_all (node_not_conv h) pre \<and> target (h n) = Aten_convolution_default
        \<and> 2 < length (args (h n)) \<longrightarrow>
      (\<exists>v. has_conv_bias_filter h (pre @ (p, Some n) # post) = Inr v
           \<and> no_conv_bias_filter h (pre @ (p, Some n) # post) = Inr (\<not> v))
      \<and> ((has_conv_bias_filter h (pre @ (p, Some n) # post) = Inr True)
           \<noteq> (no_conv_bias_filter h (pre @ (p, Some n) # post) = Inr True)))"
  by (auto simp: no_conv_bias_filter_def has_conv_bias_filter_skip)

theorem no_conv_bias_filter_negates_witness:
  "has_conv_bias_filter stacked_heap stacked_match = Inr True
   \<and> no_conv_bias_filter stacked_heap stacked_match = Inr False
   \<and> list_all (node_not_conv stacked_heap) [(40, Some 4), (41, Some 3)]
   \<and> target (stacked_heap 1) = Aten_convolution_default
   \<and> 2 < length (args (stacked_heap 1))
   \<and> absent_bias_match = [(40, Some 4), (41, Some 3)] @ (42, Some 1) # drop 3 absent_bias_match
   \<and> has_conv_bias_filter stacked_heap absent_bias_match = Inr False
   \<and> no_conv_bias_filter stacked_heap absent_bias_match = Inr True
   \<and> (has_conv_bias_filter stacked_heap absent_bias_match = Inr True)
        \<noteq> (no_conv_bias_filter stacked_heap absent_bias_match = Inr True)"
proof -
  let ?pre = "[(40, Some 4), (41, Some 3)] :: nodes_map"
  let ?m = "?pre @ (42, Some 1) # drop 3 absent_bias_match"
  have has: "has_conv_bias_filter stacked_heap stacked_match = Inr True"
    by (rule has_conv_bias_filter_stacked)
  have pre: "list_all (node_not_conv stacked_heap) ?pre"
    by (simp add: node_not_conv_def stacked_heap_at)
  have conv: "target (stacked_heap 1) = Aten_convolution_default"
    and len: "2 < length (args (stacked_heap 1))"
    by (simp_all add: stacked_heap_at)
  have split: "absent_bias_match = ?m"
    by (simp add: absent_bias_match_def)
  have val: "has_conv_bias_filter stacked_heap absent_bias_match = Inr False"
    by (simp add: absent_bias_match_def stacked_heap_at)
  have 1: "no_conv_bias_filter stacked_heap stacked_match = Inr False"
    using mp [OF no_conv_bias_filter_negates
        [where h = stacked_heap and m = stacked_match and b = True, THEN conjunct1] has]
    by simp
  note inst = mp [OF no_conv_bias_filter_negates
      [where h = stacked_heap and pre = ?pre and n = 1 and p = 42
         and post = "drop 3 absent_bias_match", THEN conjunct2]
      conjI [OF pre conjI [OF conv len]]]
  from inst [THEN conjunct1]
  obtain v where v: "has_conv_bias_filter stacked_heap ?m = Inr v"
    and nv: "no_conv_bias_filter stacked_heap ?m = Inr (\<not> v)"
    by blast
  from v val have "v = False" unfolding split [symmetric] by (simp only: sum.inject)
  with nv have 2: "no_conv_bias_filter stacked_heap absent_bias_match = Inr True"
    unfolding split [symmetric] by (simp only: not_False_eq_True)
  have 3: "(has_conv_bias_filter stacked_heap absent_bias_match = Inr True)
        \<noteq> (no_conv_bias_filter stacked_heap absent_bias_match = Inr True)"
    using inst [THEN conjunct2] unfolding split [symmetric] .
  show ?thesis
    by (intro conjI) (rule has 1 pre conv len split val 2 3)+
qed

section \<open>Post-processing: what one copy step does to a node\<close>

lemma target_copy_conv [simp]: "target (copy_conv c x h i) = target (h i)"
  by (simp add: copy_conv_def Let_def)

lemma target_copy_meta_if [simp]: "target (copy_meta_if t r x h i) = target (h i)"
  by (simp add: copy_meta_if_def)

lemma target_copy_step [simp]: "target (copy_step c b g h ox i) = target (h i)"
  by (cases ox) (simp_all add: copy_step_def)

lemma target_copy_loop [simp]: "target (copy_loop c b g h m i) = target (h i)"
  unfolding copy_loop_def
  by (induction m arbitrary: h) simp_all

lemma args_copy_step:
  "args (copy_step c b g h ox i) =
     (case ox of
        None \<Rightarrow> args (h i)
      | Some x \<Rightarrow>
          (if i = c \<and> target (h x) = Aten_convolution_default
           then take 3 (args (h c)) @ drop 3 (args (h x))
           else args (h i)))"
  by (cases ox) (simp_all add: copy_step_def copy_conv_def copy_meta_if_def Let_def)

lemma meta_copy_step:
  "meta (copy_step c b g h ox i) =
     (case ox of
        None \<Rightarrow> meta (h i)
      | Some x \<Rightarrow>
          (if i = g \<and> target (h x) = Operator_getitem then meta (h x)
           else if i = b \<and> target (h x) = Aten_native_batch_norm_legit_default then meta (h x)
           else if i = c \<and> target (h x) = Aten_convolution_default then meta (h x)
           else meta (h i)))"
  by (cases ox) (auto simp add: copy_step_def copy_conv_def copy_meta_if_def Let_def)

lemma copy_loop_Nil: "copy_loop c b g h [] = h"
  by (simp add: copy_loop_def)

lemma copy_loop_Cons:
  "copy_loop c b g h (e # m) = copy_loop c b g (copy_step c b g h (snd e)) m"
  by (simp add: copy_loop_def)

lemma copy_loop_snoc:
  "copy_loop c b g h (m @ [e]) = copy_step c b g (copy_loop c b g h m) (snd e)"
  by (simp add: copy_loop_def)

text \<open>
  What the whole copy loop leaves in the replacement convolution: among the original
  nodes of the match map that have the convolution target, the one that comes last in
  the iteration decides, both for the trailing arguments and for the metadata. A
  \<^verbatim>\<open>None\<close> entry changes nothing.
\<close>

lemma originals_append [simp]: "originals (m @ m') = originals m @ originals m'"
  by (induction m rule: originals.induct) simp_all

lemma copy_step_None: "copy_step c b g h None = h"
  by (simp add: copy_step_def)

lemma args_copy_loop_other: "i \<noteq> c \<Longrightarrow> args (copy_loop c b g h m i) = args (h i)"
proof (induction m arbitrary: h)
  case Nil
  then show ?case by (simp add: copy_loop_Nil)
next
  case (Cons e m)
  then show ?case by (simp add: copy_loop_Cons args_copy_step split: option.splits)
qed

lemma meta_copy_loop_other:
  "i \<noteq> c \<Longrightarrow> i \<noteq> b \<Longrightarrow> i \<noteq> g \<Longrightarrow> meta (copy_loop c b g h m i) = meta (h i)"
proof (induction m arbitrary: h)
  case Nil
  then show ?case by (simp add: copy_loop_Nil)
next
  case (Cons e m)
  then show ?case by (simp add: copy_loop_Cons meta_copy_step split: option.splits)
qed

lemma args_copy_loop_conv:
  assumes "3 \<le> length (args (h c))" and "c \<notin> set (originals m)"
  shows "args (copy_loop c b g h m c) =
     (if filter (\<lambda>x. target (h x) = Aten_convolution_default) (originals m) = []
      then args (h c)
      else take 3 (args (h c))
           @ drop 3 (args (h (last (filter (\<lambda>x. target (h x) = Aten_convolution_default)
                                       (originals m))))))"
  using assms(2)
proof (induction m rule: rev_induct)
  case Nil
  then show ?case by (simp add: copy_loop_Nil)
next
  case (snoc e m)
  obtain p v where e: "e = (p, v)" by (cases e)
  let ?H = "copy_loop c b g h m"
  from snoc.prems have notin: "c \<notin> set (originals m)" by simp
  note IH = snoc.IH [OF notin]
  have t3: "take 3 (args (?H c)) = take 3 (args (h c))"
    using IH assms(1) by (simp split: if_splits)
  show ?case
  proof (cases v)
    case None
    with e IH show ?thesis by (simp add: copy_loop_snoc copy_step_None)
  next
    case (Some x)
    with e snoc.prems have xc: "x \<noteq> c" by auto
    have ax: "args (?H x) = args (h x)" using xc by (rule args_copy_loop_other)
    show ?thesis
    proof (cases "target (h x) = Aten_convolution_default")
      case True
      with e Some t3 ax show ?thesis
        by (simp add: copy_loop_snoc args_copy_step)
    next
      case False
      with e Some IH show ?thesis
        by (simp add: copy_loop_snoc args_copy_step)
    qed
  qed
qed

lemma meta_copy_loop_conv:
  assumes "c \<noteq> b" and "c \<noteq> g" and "set (originals m) \<inter> {c, b, g} = {}"
  shows "meta (copy_loop c b g h m c) =
     (if filter (\<lambda>x. target (h x) = Aten_convolution_default) (originals m) = []
      then meta (h c)
      else meta (h (last (filter (\<lambda>x. target (h x) = Aten_convolution_default)
                            (originals m)))))"
  using assms(3)
proof (induction m rule: rev_induct)
  case Nil
  then show ?case by (simp add: copy_loop_Nil)
next
  case (snoc e m)
  obtain p v where e: "e = (p, v)" by (cases e)
  let ?H = "copy_loop c b g h m"
  from snoc.prems have notin: "set (originals m) \<inter> {c, b, g} = {}" by auto
  note IH = snoc.IH [OF notin]
  show ?case
  proof (cases v)
    case None
    with e IH show ?thesis by (simp add: copy_loop_snoc copy_step_None)
  next
    case (Some x)
    with e snoc.prems have xc: "x \<noteq> c" "x \<noteq> b" "x \<noteq> g" by auto
    have mx: "meta (?H x) = meta (h x)" using xc by (rule meta_copy_loop_other)
    show ?thesis
    proof (cases "target (h x) = Aten_convolution_default")
      case True
      with e Some mx assms(1,2) show ?thesis
        by (simp add: copy_loop_snoc meta_copy_step)
    next
      case False
      with e Some IH assms(1,2) show ?thesis
        by (simp add: copy_loop_snoc meta_copy_step)
    qed
  qed
qed

section \<open>Post-processing: the checks on a replacement result\<close>

lemma target_post_process_one:
  "post_process_one h r = Some (Inr h') \<Longrightarrow> target (h' i) = target (h i)"
  by (auto simp: post_process_one_def split: list.splits if_splits option.splits sum.splits)

lemma post_process_one_malformed:
  "\<not> (\<exists>g. replacements r = [g] \<and> target (h g) = Operator_getitem) \<Longrightarrow>
   post_process_one h r = Some (Inl AssertionError)"
  by (auto simp: post_process_one_def split: list.splits)

lemma post_process_all_append:
  "post_process_all h (xs @ ys) =
     (case post_process_all h xs of
        None \<Rightarrow> None
      | Some (Inl e) \<Rightarrow> Some (Inl e)
      | Some (Inr h') \<Rightarrow> post_process_all h' ys)"
  by (induction xs arbitrary: h) (auto split: option.splits sum.splits)

lemma target_post_process_all:
  "post_process_all h rs = Some (Inr h') \<Longrightarrow> target (h' i) = target (h i)"
proof (induction rs arbitrary: h)
  case Nil
  then show ?case by simp
next
  case (Cons r rs)
  then obtain h1 where one: "post_process_one h r = Some (Inr h1)"
    and rest: "post_process_all h1 rs = Some (Inr h')"
    by (auto split: option.splits sum.splits)
  from Cons.IH [OF rest] target_post_process_one [OF one] show ?case by simp
qed

lemma post_process_all_never_ignores:
  "r \<in> set rs \<Longrightarrow> \<not> (\<exists>g. replacements r = [g] \<and> target (h g) = Operator_getitem) \<Longrightarrow>
   post_process_all h rs \<noteq> Some (Inr h')"
proof (induction rs arbitrary: h)
  case Nil
  then show ?case by simp
next
  case (Cons x rs)
  show ?case
  proof (cases "r = x")
    case True
    with Cons.prems have "post_process_one h x = Some (Inl AssertionError)"
      by (simp add: post_process_one_malformed)
    then show ?thesis by simp
  next
    case False
    with Cons.prems have mem: "r \<in> set rs" by simp
    show ?thesis
    proof (cases "post_process_one h x")
      case None
      then show ?thesis by simp
    next
      case (Some res)
      show ?thesis
      proof (cases res)
        case (Inl e)
        with Some show ?thesis by simp
      next
        case (Inr h1)
        with Some have one: "post_process_one h x = Some (Inr h1)" by simp
        have "\<not> (\<exists>g. replacements r = [g] \<and> target (h1 g) = Operator_getitem)"
          using Cons.prems(2) target_post_process_one [OF one] by simp
        from Cons.IH [OF mem this] one show ?thesis by simp
      qed
    qed
  qed
qed

section \<open>Post-processing: the climb\<close>

lemma climb_both [simp]: "climb h n (Some c) (Some b) = Some (Inr (c, b))"
  by (simp add: climb.simps)

lemma climb_step:
  assumes "c = None \<or> b = None" and "args (h n) = Arg_node n' # rest"
  shows "climb h n c b =
     climb h n' (if target (h n) = Aten_convolution_default then Some n else c)
       (if target (h n) = Aten_native_batch_norm_legit_default then Some n else b)"
  using assms by (subst climb.simps) (auto split: option.splits)

lemma climb_stuck:
  assumes "c = None \<or> b = None" and "\<forall>n' rest. args (h n) \<noteq> Arg_node n' # rest"
  shows "climb h n c b = Some (Inl (if args (h n) = [] then IndexError else AssertionError))"
proof (cases "args (h n)")
  case Nil
  with assms(1) show ?thesis
    by (subst climb.simps) (auto split: option.splits)
next
  case (Cons a rest)
  with assms(2) have "\<forall>n'. a \<noteq> Arg_node n'" by simp
  with Cons assms(1) show ?thesis
    by (subst climb.simps) (cases a; auto split: option.splits)
qed

lemma chain_nth_Suc_node:
  "chain_nth h n (Suc k) = Some x \<Longrightarrow>
   \<exists>n' rest. args (h n) = Arg_node n' # rest \<and> chain_nth h n' k = Some x"
  by (auto split: list.splits arg.splits)

lemma chain_nth_Suc_eq:
  "args (h n) = Arg_node n' # rest \<Longrightarrow> chain_nth h n (Suc k) = chain_nth h n' k"
  by simp

lemma climb_found:
  assumes "\<forall>x. c = Some x \<longrightarrow> target (h x) = Aten_convolution_default"
    and "\<forall>x. b = Some x \<longrightarrow> target (h x) = Aten_native_batch_norm_legit_default"
    and "c \<noteq> None \<or> (\<exists>i\<le>K. \<exists>x. chain_nth h n i = Some x \<and> target (h x) = Aten_convolution_default)"
    and "b \<noteq> None \<or> (\<exists>j\<le>K. \<exists>y. chain_nth h n j = Some y
           \<and> target (h y) = Aten_native_batch_norm_legit_default)"
    and "chain_nth h n (Suc K) \<noteq> None"
  shows "\<exists>c' b'. climb h n c b = Some (Inr (c', b'))
           \<and> target (h c') = Aten_convolution_default
           \<and> target (h b') = Aten_native_batch_norm_legit_default
           \<and> (c = Some c' \<or> (\<exists>i\<le>K. chain_nth h n i = Some c'))
           \<and> (b = Some b' \<or> (\<exists>j\<le>K. chain_nth h n j = Some b'))"
  using assms
proof (induction K arbitrary: n c b)
  case 0
  show ?case
  proof (cases "c = None \<or> b = None")
    case False
    with "0.prems"(1,2) show ?thesis by auto
  next
    case True
    from "0.prems"(5) obtain x where "chain_nth h n (Suc 0) = Some x" by auto
    then obtain n' rest where ar: "args (h n) = Arg_node n' # rest"
      using chain_nth_Suc_node by blast
    let ?c = "if target (h n) = Aten_convolution_default then Some n else c"
    let ?b = "if target (h n) = Aten_native_batch_norm_legit_default then Some n else b"
    have st: "climb h n c b = climb h n' ?c ?b"
      by (rule climb_step [where c=c and b=b and h=h and n=n, OF True ar])
    from "0.prems"(3) have c: "c \<noteq> None \<or> target (h n) = Aten_convolution_default" by auto
    from "0.prems"(4) have b: "b \<noteq> None \<or> target (h n) = Aten_native_batch_norm_legit_default"
      by auto
    from c b "0.prems"(1,2) show ?thesis
      unfolding st by (cases c; cases b; auto)
  qed
next
  case (Suc K)
  show ?case
  proof (cases "c = None \<or> b = None")
    case False
    with Suc.prems(1,2) show ?thesis by auto
  next
    case True
    from Suc.prems(5) obtain x where "chain_nth h n (Suc (Suc K)) = Some x" by auto
    then obtain n' rest where ar: "args (h n) = Arg_node n' # rest"
      and nx: "chain_nth h n' (Suc K) = Some x"
      using chain_nth_Suc_node by blast
    let ?c = "if target (h n) = Aten_convolution_default then Some n else c"
    let ?b = "if target (h n) = Aten_native_batch_norm_legit_default then Some n else b"
    have st: "climb h n c b = climb h n' ?c ?b"
      by (rule climb_step [where c=c and b=b and h=h and n=n, OF True ar])
    have shift: "\<And>i. chain_nth h n (Suc i) = chain_nth h n' i"
      using ar by simp
    have p1: "\<forall>x. ?c = Some x \<longrightarrow> target (h x) = Aten_convolution_default"
      using Suc.prems(1) by auto
    have p2: "\<forall>x. ?b = Some x \<longrightarrow> target (h x) = Aten_native_batch_norm_legit_default"
      using Suc.prems(2) by auto
    have p3: "?c \<noteq> None \<or> (\<exists>i\<le>K. \<exists>x. chain_nth h n' i = Some x
                 \<and> target (h x) = Aten_convolution_default)"
    proof (cases "c \<noteq> None \<or> target (h n) = Aten_convolution_default")
      case True
      then show ?thesis by auto
    next
      case False
      with Suc.prems(3) obtain i x where i: "i \<le> Suc K" "chain_nth h n i = Some x"
        "target (h x) = Aten_convolution_default" by auto
      with False obtain i' where "i = Suc i'" by (cases i) auto
      with i shift show ?thesis by auto
    qed
    have p4: "?b \<noteq> None \<or> (\<exists>j\<le>K. \<exists>y. chain_nth h n' j = Some y
                 \<and> target (h y) = Aten_native_batch_norm_legit_default)"
    proof (cases "b \<noteq> None \<or> target (h n) = Aten_native_batch_norm_legit_default")
      case True
      then show ?thesis by auto
    next
      case False
      with Suc.prems(4) obtain j y where j: "j \<le> Suc K" "chain_nth h n j = Some y"
        "target (h y) = Aten_native_batch_norm_legit_default" by auto
      with False obtain j' where "j = Suc j'" by (cases j) auto
      with j shift show ?thesis by auto
    qed
    have p5: "chain_nth h n' (Suc K) \<noteq> None" using nx by simp
    from Suc.IH [OF p1 p2 p3 p4 p5] obtain c' b' where
      r: "climb h n' ?c ?b = Some (Inr (c', b'))"
        "target (h c') = Aten_convolution_default"
        "target (h b') = Aten_native_batch_norm_legit_default"
        "?c = Some c' \<or> (\<exists>i\<le>K. chain_nth h n' i = Some c')"
        "?b = Some b' \<or> (\<exists>j\<le>K. chain_nth h n' j = Some b')"
      by blast
    have c_on: "c = Some c' \<or> (\<exists>i\<le>Suc K. chain_nth h n i = Some c')"
    proof -
      from r(4) consider "c = Some c'" | "c' = n" | "\<exists>i\<le>K. chain_nth h n' i = Some c'"
        by (auto split: if_splits)
      then show ?thesis
      proof cases
        case 1 then show ?thesis by simp
      next
        case 2 
        then have "chain_nth h n 0 = Some c'" by simp
        then show ?thesis by blast
      next
        case 3
        then obtain i where "i \<le> K" "chain_nth h n (Suc i) = Some c'" using shift by auto
        then show ?thesis by (metis Suc_le_mono)
      qed
    qed
    have b_on: "b = Some b' \<or> (\<exists>j\<le>Suc K. chain_nth h n j = Some b')"
    proof -
      from r(5) consider "b = Some b'" | "b' = n" | "\<exists>j\<le>K. chain_nth h n' j = Some b'"
        by (auto split: if_splits)
      then show ?thesis
      proof cases
        case 1 then show ?thesis by simp
      next
        case 2 
        then have "chain_nth h n 0 = Some b'" by simp
        then show ?thesis by blast
      next
        case 3
        then obtain j where "j \<le> K" "chain_nth h n (Suc j) = Some b'" using shift by auto
        then show ?thesis by (metis Suc_le_mono)
      qed
    qed
    from r(1,2,3) c_on b_on show ?thesis unfolding st by blast
  qed
qed

lemma climb_fails:
  assumes "chain_nth h n k = Some x"
    and "\<forall>n' rest. args (h x) \<noteq> Arg_node n' # rest"
    and "(c = None \<and> (\<forall>i<k. \<forall>y. chain_nth h n i = Some y
              \<longrightarrow> target (h y) \<noteq> Aten_convolution_default))
       \<or> (b = None \<and> (\<forall>i<k. \<forall>y. chain_nth h n i = Some y
              \<longrightarrow> target (h y) \<noteq> Aten_native_batch_norm_legit_default))"
  shows "climb h n c b = Some (Inl (if args (h x) = [] then IndexError else AssertionError))"
  using assms
proof (induction k arbitrary: n c b)
  case 0
  then have "x = n" and "c = None \<or> b = None" by auto
  with "0.prems"(2) show ?case by (simp add: climb_stuck)
next
  case (Suc k)
  from Suc.prems(3) have cb: "c = None \<or> b = None" by auto
  from Suc.prems(1) obtain n' rest where ar: "args (h n) = Arg_node n' # rest"
    and nx: "chain_nth h n' k = Some x"
    using chain_nth_Suc_node by blast
  let ?c = "if target (h n) = Aten_convolution_default then Some n else c"
  let ?b = "if target (h n) = Aten_native_batch_norm_legit_default then Some n else b"
  have st: "climb h n c b = climb h n' ?c ?b"
    by (rule climb_step [where c=c and b=b and h=h and n=n, OF cb ar])
  have shift: "\<And>i. chain_nth h n (Suc i) = chain_nth h n' i"
    using ar by simp
  have z: "chain_nth h n 0 = Some n" by simp
  have "(?c = None \<and> (\<forall>i<k. \<forall>y. chain_nth h n' i = Some y
              \<longrightarrow> target (h y) \<noteq> Aten_convolution_default))
       \<or> (?b = None \<and> (\<forall>i<k. \<forall>y. chain_nth h n' i = Some y
              \<longrightarrow> target (h y) \<noteq> Aten_native_batch_norm_legit_default))"
  proof -
    from Suc.prems(3) consider
      (conv) "c = None" "\<forall>i<Suc k. \<forall>y. chain_nth h n i = Some y
              \<longrightarrow> target (h y) \<noteq> Aten_convolution_default"
    | (bn) "b = None" "\<forall>i<Suc k. \<forall>y. chain_nth h n i = Some y
              \<longrightarrow> target (h y) \<noteq> Aten_native_batch_norm_legit_default"
      by blast
    then show ?thesis
    proof cases
      case conv
      from conv(2) z have "target (h n) \<noteq> Aten_convolution_default" by blast
      moreover from conv(2) shift
      have "\<forall>i<k. \<forall>y. chain_nth h n' i = Some y \<longrightarrow> target (h y) \<noteq> Aten_convolution_default"
        by (metis Suc_less_eq)
      ultimately show ?thesis using conv(1) by simp
    next
      case bn
      from bn(2) z have "target (h n) \<noteq> Aten_native_batch_norm_legit_default" by blast
      moreover from bn(2) shift
      have "\<forall>i<k. \<forall>y. chain_nth h n' i = Some y
               \<longrightarrow> target (h y) \<noteq> Aten_native_batch_norm_legit_default"
        by (metis Suc_less_eq)
      ultimately show ?thesis using bn(1) by simp
    qed
  qed
  from Suc.IH [OF nx Suc.prems(2) this] show ?case unfolding st .
qed

lemma chain_nth_numeral:
  "chain_nth h n (numeral k) =
     (case args (h n) of Arg_node n' # _ \<Rightarrow> chain_nth h n' (pred_numeral k) | _ \<Rightarrow> None)"
  by (simp add: numeral_eq_Suc)

lemma climb_stacked: "climb stacked_heap 14 None None = Some (Inr (10, 13))"
  by (simp add: climb.simps stacked_heap_at)

section \<open>Post-processing: malformed results and the located nodes\<close>

text \<open>
  C5. When the loop over the replacement results reaches a result whose list of
  replacement nodes does not have length one, or whose single replacement node does not
  have the target \<^verbatim>\<open>operator.getitem\<close>, the function fails with an assertion error.
  Such a result is never passed over: whatever the other results are, the function does
  not return normally when the list holds one.
\<close>

theorem malformed_result_fails:
  "(rs_bias @ rs_no_bias = pre @ r # post
      \<and> post_process_all h pre = Some (Inr h1)
      \<and> \<not> (\<exists>g. replacements r = [g] \<and> target (h g) = Operator_getitem)
    \<longrightarrow> fuse_conv_bn_qat_post_processing h rs_bias rs_no_bias = Some (Inl AssertionError))
   \<and> (r \<in> set (rs_bias @ rs_no_bias)
      \<and> \<not> (\<exists>g. replacements r = [g] \<and> target (h g) = Operator_getitem)
    \<longrightarrow> fuse_conv_bn_qat_post_processing h rs_bias rs_no_bias \<noteq> Some (Inr h'))"
proof (intro conjI impI)
  assume a: "rs_bias @ rs_no_bias = pre @ r # post
      \<and> post_process_all h pre = Some (Inr h1)
      \<and> \<not> (\<exists>g. replacements r = [g] \<and> target (h g) = Operator_getitem)"
  then have "\<not> (\<exists>g. replacements r = [g] \<and> target (h1 g) = Operator_getitem)"
    using target_post_process_all [of h pre h1] by simp
  then have "post_process_one h1 r = Some (Inl AssertionError)"
    by (rule post_process_one_malformed)
  with a show "fuse_conv_bn_qat_post_processing h rs_bias rs_no_bias = Some (Inl AssertionError)"
    by (simp add: fuse_conv_bn_qat_post_processing_def post_process_all_append)
next
  assume "r \<in> set (rs_bias @ rs_no_bias)
      \<and> \<not> (\<exists>g. replacements r = [g] \<and> target (h g) = Operator_getitem)"
  then show "fuse_conv_bn_qat_post_processing h rs_bias rs_no_bias \<noteq> Some (Inr h')"
    unfolding fuse_conv_bn_qat_post_processing_def
    using post_process_all_never_ignores by blast
qed

theorem malformed_result_fails_witness:
  "post_process_all stacked_heap [] = Some (Inr stacked_heap)
   \<and> fuse_conv_bn_qat_post_processing stacked_heap
         [stacked_result\<lparr>replacements := [14, 13]\<rparr>] [] = Some (Inl AssertionError)
   \<and> fuse_conv_bn_qat_post_processing stacked_heap
         [] [stacked_result\<lparr>replacements := [13]\<rparr>] = Some (Inl AssertionError)
   \<and> fuse_conv_bn_qat_post_processing stacked_heap
         [stacked_result, stacked_result\<lparr>replacements := []\<rparr>] [] \<noteq> Some (Inr stacked_heap)"
proof -
  let ?two = "stacked_result\<lparr>replacements := [14, 13]\<rparr>"
  let ?bn = "stacked_result\<lparr>replacements := [13]\<rparr>"
  let ?none = "stacked_result\<lparr>replacements := []\<rparr>"
  have start: "post_process_all stacked_heap [] = Some (Inr stacked_heap)" by simp
  have bad2: "\<not> (\<exists>g. replacements ?two = [g] \<and> target (stacked_heap g) = Operator_getitem)"
    by simp
  have bad1: "\<not> (\<exists>g. replacements ?bn = [g] \<and> target (stacked_heap g) = Operator_getitem)"
    by (simp add: stacked_heap_at)
  have bad0: "\<not> (\<exists>g. replacements ?none = [g] \<and> target (stacked_heap g) = Operator_getitem)"
    by simp
  have 1: "fuse_conv_bn_qat_post_processing stacked_heap [?two] [] = Some (Inl AssertionError)"
    using malformed_result_fails
      [where rs_bias = "[?two]" and rs_no_bias = "[]" and pre = "[]" and r = ?two
         and post = "[]" and h = stacked_heap and ?h1.0 = stacked_heap, THEN conjunct1]
      start bad2 by simp
  have 2: "fuse_conv_bn_qat_post_processing stacked_heap [] [?bn] = Some (Inl AssertionError)"
    using malformed_result_fails
      [where rs_bias = "[]" and rs_no_bias = "[?bn]" and pre = "[]" and r = ?bn
         and post = "[]" and h = stacked_heap and ?h1.0 = stacked_heap, THEN conjunct1]
      start bad1 by simp
  have 3: "fuse_conv_bn_qat_post_processing stacked_heap [stacked_result, ?none] []
             \<noteq> Some (Inr stacked_heap)"
    using malformed_result_fails
      [where rs_bias = "[stacked_result, ?none]" and rs_no_bias = "[]" and r = ?none
         and h = stacked_heap and h' = stacked_heap, THEN conjunct2]
      bad0 by simp
  from start 1 2 3 show ?thesis by blast
qed

text \<open>
  C7 (amended). Started at the anchor with neither node located, the climb returns a
  convolution node and a batch-norm node of the first-argument chain, provided the chain
  holds a convolution node at some position \<open>i\<close> and a batch-norm node at some position
  \<open>j\<close> and continues one node beyond the later of the two: the loop also asserts the
  first argument of the node at which the second of them is found. If, before both have
  been found at earlier positions, the chain reaches a node whose first argument exists
  and is not a node, the climb fails with an assertion error; it does not run on.
\<close>

theorem climb_locates_conv_and_bn:
  "(chain_nth h g i = Some c0 \<and> target (h c0) = Aten_convolution_default
      \<and> chain_nth h g j = Some b0 \<and> target (h b0) = Aten_native_batch_norm_legit_default
      \<and> chain_nth h g (Suc (max i j)) \<noteq> None
    \<longrightarrow> (\<exists>c b. climb h g None None = Some (Inr (c, b))
           \<and> target (h c) = Aten_convolution_default
           \<and> target (h b) = Aten_native_batch_norm_legit_default
           \<and> (\<exists>k\<le>max i j. chain_nth h g k = Some c)
           \<and> (\<exists>k\<le>max i j. chain_nth h g k = Some b)))
   \<and> (chain_nth h g k = Some x \<and> args (h x) = a # rest \<and> (\<forall>n'. a \<noteq> Arg_node n')
      \<and> \<not> ((\<exists>i<k. \<exists>y. chain_nth h g i = Some y \<and> target (h y) = Aten_convolution_default)
           \<and> (\<exists>j<k. \<exists>y. chain_nth h g j = Some y
                  \<and> target (h y) = Aten_native_batch_norm_legit_default))
    \<longrightarrow> climb h g None None = Some (Inl AssertionError))"
proof (intro conjI impI)
  assume a: "chain_nth h g i = Some c0 \<and> target (h c0) = Aten_convolution_default
      \<and> chain_nth h g j = Some b0 \<and> target (h b0) = Aten_native_batch_norm_legit_default
      \<and> chain_nth h g (Suc (max i j)) \<noteq> None"
  have c: "(None :: node_id option) \<noteq> None
        \<or> (\<exists>i'\<le>max i j. \<exists>x. chain_nth h g i' = Some x
              \<and> target (h x) = Aten_convolution_default)"
    using a by (intro disjI2 exI [of _ i] exI [of _ c0]) simp
  have b: "(None :: node_id option) \<noteq> None
        \<or> (\<exists>j'\<le>max i j. \<exists>y. chain_nth h g j' = Some y
              \<and> target (h y) = Aten_native_batch_norm_legit_default)"
    using a by (intro disjI2 exI [of _ j] exI [of _ b0]) simp
  from a have n: "chain_nth h g (Suc (max i j)) \<noteq> None" by simp
  from climb_found [where c = None and b = None and h = h and n = g and K = "max i j",
      OF _ _ c b n]
  show "\<exists>c b. climb h g None None = Some (Inr (c, b))
           \<and> target (h c) = Aten_convolution_default
           \<and> target (h b) = Aten_native_batch_norm_legit_default
           \<and> (\<exists>k\<le>max i j. chain_nth h g k = Some c)
           \<and> (\<exists>k\<le>max i j. chain_nth h g k = Some b)"
    by simp
next
  assume a: "chain_nth h g k = Some x \<and> args (h x) = a # rest \<and> (\<forall>n'. a \<noteq> Arg_node n')
      \<and> \<not> ((\<exists>i<k. \<exists>y. chain_nth h g i = Some y \<and> target (h y) = Aten_convolution_default)
           \<and> (\<exists>j<k. \<exists>y. chain_nth h g j = Some y
                  \<and> target (h y) = Aten_native_batch_norm_legit_default))"
  then have 1: "chain_nth h g k = Some x"
    and 2: "\<forall>n' rest. args (h x) \<noteq> Arg_node n' # rest"
    and 3: "((None :: node_id option) = None \<and> (\<forall>i<k. \<forall>y. chain_nth h g i = Some y
              \<longrightarrow> target (h y) \<noteq> Aten_convolution_default))
       \<or> ((None :: node_id option) = None \<and> (\<forall>i<k. \<forall>y. chain_nth h g i = Some y
              \<longrightarrow> target (h y) \<noteq> Aten_native_batch_norm_legit_default))"
    by auto
  from climb_fails [OF 1 2 3] a
  show "climb h g None None = Some (Inl AssertionError)" by simp
qed

theorem climb_locates_conv_and_bn_witness:
  "chain_nth stacked_heap 14 4 = Some 10 \<and> target (stacked_heap 10) = Aten_convolution_default
   \<and> chain_nth stacked_heap 14 1 = Some 13
   \<and> target (stacked_heap 13) = Aten_native_batch_norm_legit_default
   \<and> chain_nth stacked_heap 14 (Suc (max 4 1)) \<noteq> None
   \<and> (\<exists>c b. climb stacked_heap 14 None None = Some (Inr (c, b))
          \<and> target (stacked_heap c) = Aten_convolution_default
          \<and> target (stacked_heap b) = Aten_native_batch_norm_legit_default)
   \<and> chain_nth literal_input_heap 2 0 = Some 2
   \<and> args (literal_input_heap 2) = Arg_none # tl (args (literal_input_heap 2))
   \<and> climb literal_input_heap 2 None None = Some (Inl AssertionError)"
proof -
  have i: "chain_nth stacked_heap 14 4 = Some 10"
    and j: "chain_nth stacked_heap 14 1 = Some 13"
    and n: "chain_nth stacked_heap 14 (Suc (max 4 1)) \<noteq> None"
    by (simp_all add: chain_nth_numeral stacked_heap_at)
  have tc: "target (stacked_heap 10) = Aten_convolution_default"
    and tb: "target (stacked_heap 13) = Aten_native_batch_norm_legit_default"
    by (simp_all add: stacked_heap_at)
  have k: "chain_nth literal_input_heap 2 0 = Some 2" by simp
  have ar: "args (literal_input_heap 2) = Arg_none # tl (args (literal_input_heap 2))"
    by (simp add: literal_input_heap_at)
  have lit: "\<forall>n'. Arg_none \<noteq> Arg_node n'" by simp
  have 1: "\<exists>c b. climb stacked_heap 14 None None = Some (Inr (c, b))
          \<and> target (stacked_heap c) = Aten_convolution_default
          \<and> target (stacked_heap b) = Aten_native_batch_norm_legit_default"
    using climb_locates_conv_and_bn
      [where h = stacked_heap and g = 14 and i = 4 and ?c0.0 = 10 and j = 1 and ?b0.0 = 13,
         THEN conjunct1] i j n tc tb
    by blast
  have 2: "climb literal_input_heap 2 None None = Some (Inl AssertionError)"
    using climb_locates_conv_and_bn
      [where h = literal_input_heap and g = 2 and k = 0 and x = 2 and a = Arg_none
         and rest = "tl (args (literal_input_heap 2))", THEN conjunct2] k ar lit
    by simp
  from i j n tc tb k ar 1 2 show ?thesis by blast
qed

text \<open>
  The claim as stated fails on a backbone whose convolution has a literal as first
  argument: the chain from the anchor holds the batch-norm node (position 1) and the
  convolution node (position 2) before any first argument that is not a node, yet the
  climb fails, because the loop asserts the first argument of the convolution node too.
\<close>

theorem climb_asserts_after_locating:
  "chain_nth literal_input_heap 0 1 = Some 1
   \<and> target (literal_input_heap 1) = Aten_native_batch_norm_legit_default
   \<and> chain_nth literal_input_heap 0 2 = Some 2
   \<and> target (literal_input_heap 2) = Aten_convolution_default
   \<and> hd (args (literal_input_heap 0)) = Arg_node 1
   \<and> hd (args (literal_input_heap 1)) = Arg_node 2
   \<and> hd (args (literal_input_heap 2)) = Arg_none
   \<and> climb literal_input_heap 0 None None = Some (Inl AssertionError)"
  by (simp add: chain_nth_numeral climb.simps literal_input_heap_at)

section \<open>Post-processing: a convolution that feeds the matched convolution\<close>

lemma post_processing_stacked:
  "fuse_conv_bn_qat_post_processing stacked_heap [stacked_result] []
     = Some (Inr (copy_loop 10 13 14 stacked_heap stacked_match))"
  by (simp add: fuse_conv_bn_qat_post_processing_def post_process_one_def stacked_result_def
        climb_stacked stacked_heap_at)

lemma placeholder_target [simp]: "target (placeholder_node nm) = Other_target ''placeholder''"
  by (simp add: placeholder_node_def)

lemma args_copy_loop_stacked:
  "args (copy_loop 10 13 14 stacked_heap stacked_match 10)
     = [Arg_node 1, Arg_node 30, Arg_node 31] @ conv_consts 2"
  by (simp add: stacked_match_def copy_loop_Nil copy_loop_Cons args_copy_step stacked_heap_at
        conv_consts_def)

lemma meta_copy_loop_stacked:
  "meta (copy_loop 10 13 14 stacked_heap stacked_match 10) = module_meta ''conv1'' ''Conv2d''"
  "meta (copy_loop 10 13 14 stacked_heap stacked_match 13) = module_meta ''bn'' ''BatchNorm2d''"
  "meta (copy_loop 10 13 14 stacked_heap stacked_match 14) = module_meta ''bn'' ''BatchNorm2d''"
  by (simp_all add: stacked_match_def copy_loop_Nil copy_loop_Cons meta_copy_step
        stacked_heap_at)

text \<open>
  C1, evaluated on the graph \<open>x \<rightarrow> conv1 \<rightarrow> conv2 \<rightarrow> bn \<rightarrow> getitem\<close>. The match map
  holds the matched convolution conv2 (node 2, stride 3) and, for the placeholder \<open>x\<close>,
  its input conv1 (node 1, stride 2), which is a convolution node too and comes later in
  the iteration. After post-processing the replacement convolution (node 10) keeps its own
  first three arguments, but its trailing arguments are those of conv1, not those of the
  matched convolution conv2.
\<close>

theorem stacked_conv_takes_args_of_input_conv:
  "(42, Some 2) \<in> set (nodes_map stacked_result)
   \<and> target (stacked_heap 2) = Aten_convolution_default
   \<and> (case fuse_conv_bn_qat_post_processing stacked_heap [stacked_result] [] of
         Some (Inr h') \<Rightarrow>
           take 3 (args (h' 10)) = take 3 (args (stacked_heap 10))
           \<and> drop 3 (args (h' 10)) = drop 3 (args (stacked_heap 1))
           \<and> drop 3 (args (h' 10)) = conv_consts 2
           \<and> drop 3 (args (stacked_heap 2)) = conv_consts 3
           \<and> args (h' 10)
                \<noteq> take 3 (args (stacked_heap 10)) @ drop 3 (args (stacked_heap 2))
       | _ \<Rightarrow> False)"
proof -
  have mem: "(42, Some 2) \<in> set (nodes_map stacked_result)"
    by (simp add: stacked_result_def stacked_match_def)
  have body:
    "take 3 (args (copy_loop 10 13 14 stacked_heap stacked_match 10))
       = take 3 (args (stacked_heap 10))
     \<and> drop 3 (args (copy_loop 10 13 14 stacked_heap stacked_match 10))
         = drop 3 (args (stacked_heap 1))
     \<and> drop 3 (args (copy_loop 10 13 14 stacked_heap stacked_match 10)) = conv_consts 2
     \<and> drop 3 (args (stacked_heap 2)) = conv_consts 3
     \<and> args (copy_loop 10 13 14 stacked_heap stacked_match 10)
         \<noteq> take 3 (args (stacked_heap 10)) @ drop 3 (args (stacked_heap 2))"
    by (simp add: args_copy_loop_stacked stacked_heap_at conv_consts_def)
  have tgt: "target (stacked_heap 2) = Aten_convolution_default"
    by (simp add: stacked_heap_at)
  show ?thesis
    unfolding post_processing_stacked option.case sum.case
    using mem tgt body by blast
qed

text \<open>
  C2, evaluated on the same graph. The pair (42, node 2) of the match map has an original
  with the convolution target, but after post-processing the metadata of the replacement
  convolution (node 10) is that of conv1 (node 1), the input of the matched convolution,
  and differs from the metadata of the matched convolution conv2 (node 2). The
  replacement batch norm and getitem, whose targets occur once in the match map, do carry
  the metadata of their originals.
\<close>

theorem stacked_conv_takes_meta_of_input_conv:
  "(42, Some 2) \<in> set (nodes_map stacked_result)
   \<and> target (stacked_heap 2) = Aten_convolution_default
   \<and> (case fuse_conv_bn_qat_post_processing stacked_heap [stacked_result] [] of
         Some (Inr h') \<Rightarrow>
           meta (h' 10) = meta (stacked_heap 1)
           \<and> meta (h' 10) \<noteq> meta (stacked_heap 2)
           \<and> meta (h' 13) = meta (stacked_heap 3)
           \<and> meta (h' 14) = meta (stacked_heap 4)
       | _ \<Rightarrow> False)"
proof -
  have mem: "(42, Some 2) \<in> set (nodes_map stacked_result)"
    by (simp add: stacked_result_def stacked_match_def)
  have body:
    "meta (copy_loop 10 13 14 stacked_heap stacked_match 10) = meta (stacked_heap 1)
     \<and> meta (copy_loop 10 13 14 stacked_heap stacked_match 10) \<noteq> meta (stacked_heap 2)
     \<and> meta (copy_loop 10 13 14 stacked_heap stacked_match 13) = meta (stacked_heap 3)
     \<and> meta (copy_loop 10 13 14 stacked_heap stacked_match 14) = meta (stacked_heap 4)"
    by (simp add: meta_copy_loop_stacked stacked_heap_at module_meta_def)
  have tgt: "target (stacked_heap 2) = Aten_convolution_default"
    by (simp add: stacked_heap_at)
  show ?thesis
    unfolding post_processing_stacked option.case sum.case
    using mem tgt body by blast
qed

section \<open>Pipeline glue: the scope map\<close>

lemma split_str_not_Nil [simp]: "split_str s sep \<noteq> []"
  by (induction s) (auto split: list.splits)

lemma split_str_no_sep: "sep \<notin> set s \<Longrightarrow> split_str s sep = [s]"
  by (induction s) auto

lemma split_str_sep: "sep \<in> set s \<Longrightarrow> \<exists>w v vs. split_str s sep = w # v # vs"
proof (induction s)
  case Nil
  then show ?case by simp
next
  case (Cons c cs)
  show ?case
  proof (cases "c = sep")
    case True
    obtain v vs where "split_str cs sep = v # vs"
      by (cases "split_str cs sep") auto
    with True show ?thesis by simp
  next
    case False
    with Cons.prems have "sep \<in> set cs" by simp
    from Cons.IH [OF this] obtain w v vs where "split_str cs sep = w # v # vs" by blast
    with False show ?thesis by simp
  qed
qed

lemma last_split_str:
  "last (split_str s sep) = rev (takeWhile (\<lambda>c. c \<noteq> sep) (rev s))"
proof (induction s)
  case Nil
  then show ?case by simp
next
  case (Cons c cs)
  show ?case
  proof (cases "c = sep")
    case True
    then show ?thesis using Cons.IH by (simp add: takeWhile_append)
  next
    case False
    show ?thesis
    proof (cases "sep \<in> set cs")
      case True
      from split_str_sep [OF this] obtain w v vs where sp: "split_str cs sep = w # v # vs"
        by blast
      with False have "last (split_str (c # cs) sep) = last (split_str cs sep)" by simp
      also have "\<dots> = rev (takeWhile (\<lambda>c. c \<noteq> sep) (rev cs))" by (rule Cons.IH)
      also have "\<dots> = rev (takeWhile (\<lambda>c. c \<noteq> sep) (rev (c # cs)))"
        using True by (auto simp: takeWhile_append)
      finally show ?thesis .
    next
      case nosep: False
      with False have sp: "split_str (c # cs) sep = [c # cs]"
        by (simp add: split_str_no_sep)
      have tw: "takeWhile (\<lambda>c. c \<noteq> sep) (rev (c # cs)) = rev (c # cs)"
        using False nosep by auto
      show ?thesis
        unfolding sp tw by simp
    qed
  qed
qed

lemma last_split_str_suffix:
  "\<exists>pre. s = pre @ last (split_str s sep) \<and> sep \<notin> set (last (split_str s sep))
      \<and> (pre = [] \<or> last pre = sep)"
proof -
  let ?P = "\<lambda>c. c \<noteq> sep"
  let ?l = "rev (takeWhile ?P (rev s))"
  let ?pre = "rev (dropWhile ?P (rev s))"
  have 1: "s = ?pre @ ?l"
    by (metis rev_append rev_rev_ident takeWhile_dropWhile_id)
  have 2: "sep \<notin> set ?l" by (auto dest: set_takeWhileD)
  have 3: "?pre = [] \<or> last ?pre = sep"
  proof (cases "dropWhile ?P (rev s)")
    case Nil
    then show ?thesis by simp
  next
    case (Cons y ys)
    then have "\<not> ?P y" using hd_dropWhile [of ?P "rev s"] by (metis list.sel(1) list.distinct(1))
    with Cons show ?thesis by simp
  qed
  from 1 2 3 show ?thesis unfolding last_split_str by blast
qed

lemma foldl_scope_step:
  "foldl scope_step m ns = m ++ map_of (rev (map (\<lambda>n. (name n, current_scope n)) ns))"
proof (induction ns arbitrary: m)
  case Nil
  then show ?case by simp
next
  case (Cons n ns)
  have "foldl scope_step m (n # ns) = foldl scope_step (scope_step m n) ns" by simp
  also have "\<dots> = scope_step m n ++ map_of (rev (map (\<lambda>n. (name n, current_scope n)) ns))"
    by (rule Cons.IH)
  also have "\<dots> = m ++ map_of (rev (map (\<lambda>n. (name n, current_scope n)) (n # ns)))"
    by (simp add: scope_step_def)
  finally show ?case .
qed

lemma dom_node_name_to_scope:
  "dom (node_name_to_scope model) = name ` set (graph_node_list model)"
  by (simp add: node_name_to_scope_def foldl_scope_step dom_map_of_conv_image_fst image_image)

lemma node_name_to_scope_distinct:
  assumes "distinct (map name (graph_node_list model))" and "n \<in> set (graph_node_list model)"
  shows "node_name_to_scope model (name n) = Some (current_scope n)"
proof -
  let ?es = "rev (map (\<lambda>n. (name n, current_scope n)) (graph_node_list model))"
  have "distinct (map fst ?es)" using assms(1) by (simp add: rev_map [symmetric] o_def distinct_rev)
  moreover have "(name n, current_scope n) \<in> set ?es" using assms(2) by auto
  ultimately have "map_of ?es (name n) = Some (current_scope n)" by (rule map_of_is_SomeI)
  then show ?thesis by (simp add: node_name_to_scope_def foldl_scope_step)
qed

lemma node_name_to_scope_some:
  assumes "n \<in> set (graph_node_list model)"
  shows "\<exists>n'\<in>set (graph_node_list model). name n' = name n
           \<and> node_name_to_scope model (name n) = Some (current_scope n')"
proof -
  let ?es = "rev (map (\<lambda>n. (name n, current_scope n)) (graph_node_list model))"
  have "name n \<in> fst ` set ?es" using assms by force
  then have "name n \<in> dom (map_of ?es)" by (simp only: dom_map_of_conv_image_fst)
  then obtain v where "map_of ?es (name n) = Some v" by blast
  then have "(name n, v) \<in> set ?es" by (rule map_of_SomeD)
  then obtain n' where "n' \<in> set (graph_node_list model)" "name n' = name n" "v = current_scope n'"
    by auto
  with \<open>map_of ?es (name n) = Some v\<close> show ?thesis
    by (auto simp: node_name_to_scope_def foldl_scope_step)
qed

lemma prepare_pt2e_log:
  "snd (prepare_pt2e ext model q e b) =
     Call_fuse_conv_bn model #
       (case fuse_conv_bn ext model of
          Inl err \<Rightarrow> []
        | Inr model1 \<Rightarrow>
            Call_prepare model1 q False (node_name_to_scope model) e b #
              (case prepare ext model1 q False (node_name_to_scope model) e b of
                 Inl err \<Rightarrow> []
               | Inr model2 \<Rightarrow> [Call_rearrange_weight_observer_for_decomposed_linear model2]))"
  by (simp add: prepare_pt2e_def Let_def split: sum.splits)

lemma stacked_model_nodes:
  "graph_node_list stacked_model =
     [stacked_heap 0, stacked_heap 1, stacked_heap 2, stacked_heap 3, stacked_heap 4]"
  by (simp add: graph_node_list_def stacked_model_def)

lemma passing_collaborators_simps:
  "fuse_conv_bn passing_collaborators m = Inr m"
  "prepare passing_collaborators m q f sc e b = Inr m"
  "rearrange_weight_observer_for_decomposed_linear passing_collaborators m = Inr m"
  by (simp_all add: passing_collaborators_def)

text \<open>
  C9. Each iteration of the loop of \<open>prepare_pt2e\<close> records the scope of its node under
  the node's name. The resulting map (the one handed to the prepare stage) has an entry
  for exactly the names of the nodes of the graph. The entry under the name of a
  node is the scope of a node with that name, and of that very node when the names of the
  graph are distinct, as they are in an FX graph. The scope of a node whose module stack
  is not empty is the last dot-separated component of the path of the stack's last entry
  (the part of the path after its last dot) paired with that entry's module type; the
  scope of a node without a module stack, or with an empty one, is the empty string
  paired with \<open>NoneType\<close>.
\<close>

theorem node_name_to_scope_records_every_node:
  "dom (node_name_to_scope model) = name ` set (graph_node_list model)
   \<and> (n \<in> set (graph_node_list model) \<longrightarrow>
        (\<exists>n'\<in>set (graph_node_list model). name n' = name n
           \<and> node_name_to_scope model (name n) = Some (current_scope n')))
   \<and> (distinct (map name (graph_node_list model)) \<and> n \<in> set (graph_node_list model) \<longrightarrow>
        node_name_to_scope model (name n) = Some (current_scope n))
   \<and> (nn_module_stack (meta n) = Some (stack @ [(key, (path, ty))]) \<longrightarrow>
        current_scope n = (last (split_str path CHR ''.''), ty)
        \<and> (\<exists>pre. path = pre @ fst (current_scope n)
               \<and> CHR ''.'' \<notin> set (fst (current_scope n))
               \<and> (pre = [] \<or> last pre = CHR ''.'')))
   \<and> (nn_module_stack (meta n) = None \<or> nn_module_stack (meta n) = Some [] \<longrightarrow>
        current_scope n = ([], NoneType))
   \<and> (fuse_conv_bn ext model = Inr model1 \<longrightarrow>
        snd (prepare_pt2e ext model q e b) ! 1
          = Call_prepare model1 q False (node_name_to_scope model) e b)
   \<and> scope_step scopes n (name n) = Some (current_scope n)"
proof (intro conjI impI)
  show "dom (node_name_to_scope model) = name ` set (graph_node_list model)"
    by (rule dom_node_name_to_scope)
next
  assume "n \<in> set (graph_node_list model)"
  then show "\<exists>n'\<in>set (graph_node_list model). name n' = name n
           \<and> node_name_to_scope model (name n) = Some (current_scope n')"
    by (rule node_name_to_scope_some)
next
  assume "distinct (map name (graph_node_list model)) \<and> n \<in> set (graph_node_list model)"
  then show "node_name_to_scope model (name n) = Some (current_scope n)"
    by (simp add: node_name_to_scope_distinct)
next
  assume st: "nn_module_stack (meta n) = Some (stack @ [(key, (path, ty))])"
  then show cs: "current_scope n = (last (split_str path CHR ''.''), ty)"
    by (simp add: current_scope_def)
  from last_split_str_suffix [of path "CHR ''.''"]
  show "\<exists>pre. path = pre @ fst (current_scope n)
               \<and> CHR ''.'' \<notin> set (fst (current_scope n))
               \<and> (pre = [] \<or> last pre = CHR ''.'')"
    unfolding cs fst_conv .
next
  assume "nn_module_stack (meta n) = None \<or> nn_module_stack (meta n) = Some []"
  then show "current_scope n = ([], NoneType)"
    by (auto simp: current_scope_def)
next
  assume "fuse_conv_bn ext model = Inr model1"
  then show "snd (prepare_pt2e ext model q e b) ! 1
          = Call_prepare model1 q False (node_name_to_scope model) e b"
    by (simp add: prepare_pt2e_log)
next
  show "scope_step scopes n (name n) = Some (current_scope n)"
    by (simp add: scope_step_def)
qed

theorem node_name_to_scope_records_every_node_witness:
  "distinct (map name (graph_node_list stacked_model))
   \<and> stacked_heap 2 \<in> set (graph_node_list stacked_model)
   \<and> stacked_heap 0 \<in> set (graph_node_list stacked_model)
   \<and> node_name_to_scope stacked_model ''convolution_default_1''
        = Some (''conv2'', Module_class ''Conv2d'')
   \<and> node_name_to_scope stacked_model ''arg0'' = Some ([], NoneType)
   \<and> snd (prepare_pt2e passing_collaborators stacked_model () () ()) ! 1
        = Call_prepare stacked_model () False (node_name_to_scope stacked_model) () ()"
proof -
  have d: "distinct (map name (graph_node_list stacked_model))"
    by (simp add: stacked_model_nodes stacked_heap_at placeholder_node_def)
  have m2: "stacked_heap 2 \<in> set (graph_node_list stacked_model)"
    and m0: "stacked_heap 0 \<in> set (graph_node_list stacked_model)"
    by (simp_all add: stacked_model_nodes)
  have n2: "name (stacked_heap 2) = ''convolution_default_1''"
    and n0: "name (stacked_heap 0) = ''arg0''"
    by (simp_all add: stacked_heap_at placeholder_node_def)
  have st2: "nn_module_stack (meta (stacked_heap 2))
      = Some ([(''L__self__'', (''model'', Module_class ''Net''))]
              @ [(''L__self___conv2'', (''model.conv2'', Module_class ''Conv2d''))])"
    by (simp add: stacked_heap_at module_meta_def)
  have st0: "nn_module_stack (meta (stacked_heap 0)) = None
      \<or> nn_module_stack (meta (stacked_heap 0)) = Some []"
    by (simp add: stacked_heap_at placeholder_node_def empty_meta_def)
  have comp: "last (split_str ''model.conv2'' CHR ''.'') = ''conv2''" by simp
  have f: "fuse_conv_bn passing_collaborators stacked_model = Inr stacked_model"
    by (simp add: passing_collaborators_simps)
  note thm2 = node_name_to_scope_records_every_node
    [where model = stacked_model and n = "stacked_heap 2"
       and stack = "[(''L__self__'', (''model'', Module_class ''Net''))]"
       and key = "''L__self___conv2''" and path = "''model.conv2''"
       and ty = "Module_class ''Conv2d''"
       and ext = passing_collaborators and ?model1.0 = stacked_model
       and q = "()" and e = "()" and b = "()"]
  note thm0 = node_name_to_scope_records_every_node
    [where model = stacked_model and n = "stacked_heap 0"]
  have a2: "node_name_to_scope stacked_model (name (stacked_heap 2))
      = Some (current_scope (stacked_heap 2))"
    by (rule mp [OF thm2 [THEN conjunct2, THEN conjunct2, THEN conjunct1] conjI [OF d m2]])
  have b2: "current_scope (stacked_heap 2)
      = (last (split_str ''model.conv2'' CHR ''.''), Module_class ''Conv2d'')"
    by (rule conjunct1 [OF mp [OF thm2 [THEN conjunct2, THEN conjunct2, THEN conjunct2,
          THEN conjunct1] st2]])
  have 1: "node_name_to_scope stacked_model ''convolution_default_1''
        = Some (''conv2'', Module_class ''Conv2d'')"
    using a2 unfolding b2 n2 comp .
  have a0: "node_name_to_scope stacked_model (name (stacked_heap 0))
      = Some (current_scope (stacked_heap 0))"
    by (rule mp [OF thm0 [THEN conjunct2, THEN conjunct2, THEN conjunct1] conjI [OF d m0]])
  have b0: "current_scope (stacked_heap 0) = ([], NoneType)"
    by (rule mp [OF thm0 [THEN conjunct2, THEN conjunct2, THEN conjunct2, THEN conjunct2,
          THEN conjunct1] st0])
  have 2: "node_name_to_scope stacked_model ''arg0'' = Some ([], NoneType)"
    using a0 unfolding b0 n0 .
  have 3: "snd (prepare_pt2e passing_collaborators stacked_model () () ()) ! 1
        = Call_prepare stacked_model () False (node_name_to_scope stacked_model) () ()"
    by (rule mp [OF thm2 [THEN conjunct2, THEN conjunct2, THEN conjunct2, THEN conjunct2,
          THEN conjunct2, THEN conjunct1] f])
  show ?thesis
    by (intro conjI) (rule d m2 m0 1 2 3)+
qed

section \<open>Pipeline glue: the calls of prepare\_pt2e\<close>

text \<open>
  C10. Whatever the model, the configuration, the example inputs and the backend
  configuration are, and however the called functions behave, every call of the prepare
  stage made by \<open>prepare_pt2e\<close> passes \<open>False\<close> as the QAT flag; when the fusion returns,
  there is exactly one such call.
\<close>

theorem prepare_is_never_qat:
  "set (is_qat_flags (snd (prepare_pt2e ext model q e b))) \<subseteq> {False}
   \<and> (fuse_conv_bn ext model = Inr model1 \<longrightarrow>
        is_qat_flags (snd (prepare_pt2e ext model q e b)) = [False])"
  by (simp add: prepare_pt2e_log split: sum.splits)

theorem prepare_is_never_qat_witness:
  "fuse_conv_bn passing_collaborators stacked_model = Inr stacked_model
   \<and> is_qat_flags (snd (prepare_pt2e passing_collaborators stacked_model () () ())) = [False]"
proof -
  have f: "fuse_conv_bn passing_collaborators stacked_model = Inr stacked_model"
    by (simp add: passing_collaborators_simps)
  have "is_qat_flags (snd (prepare_pt2e passing_collaborators stacked_model () () ())) = [False]"
    by (rule mp [OF prepare_is_never_qat
          [where ext = passing_collaborators and model = stacked_model
             and ?model1.0 = stacked_model and q = "()" and e = "()" and b = "()",
           THEN conjunct2] f])
  with f show ?thesis by (rule conjI)
qed

text \<open>
  C3 (amended). The first call \<open>prepare_pt2e\<close> makes is the conv-batchnorm fusion
  \<^verbatim>\<open>_fuse_conv_bn_\<close> of \<^verbatim>\<open>_pt2e.utils\<close>, on the graph it was given, and it is the only
  call made before the prepare stage; \<open>prepare_pt2e\<close> itself never calls
  \<^verbatim>\<open>_fuse_conv_bn_qat\<close>. When the fusion returns, the prepare stage is called exactly
  once, on the graph the fusion returned; when the fusion raises, the prepare stage is
  not called.
\<close>

theorem fusion_precedes_prepare:
  "calls_before_prepare (snd (prepare_pt2e ext model q e b)) = [Call_fuse_conv_bn model]
   \<and> Call_fuse_conv_bn_qat m \<notin> set (snd (prepare_pt2e ext model q e b))
   \<and> (fuse_conv_bn ext model = Inr model1 \<longrightarrow>
        snd (prepare_pt2e ext model q e b) ! 1
          = Call_prepare model1 q False (node_name_to_scope model) e b
        \<and> filter is_prepare_call (snd (prepare_pt2e ext model q e b))
          = [Call_prepare model1 q False (node_name_to_scope model) e b])
   \<and> (fuse_conv_bn ext model = Inl err \<longrightarrow>
        snd (prepare_pt2e ext model q e b) = [Call_fuse_conv_bn model])"
  by (simp add: prepare_pt2e_log calls_before_prepare_def split: sum.splits)

theorem fusion_precedes_prepare_witness:
  "fuse_conv_bn passing_collaborators stacked_model = Inr stacked_model
   \<and> snd (prepare_pt2e passing_collaborators stacked_model () () ()) ! 1
       = Call_prepare stacked_model () False (node_name_to_scope stacked_model) () ()
   \<and> filter is_prepare_call (snd (prepare_pt2e passing_collaborators stacked_model () () ()))
       = [Call_prepare stacked_model () False (node_name_to_scope stacked_model) () ()]
   \<and> fuse_conv_bn (passing_collaborators\<lparr>fuse_conv_bn := (\<lambda>m. Inl (Propagated ''fusion''))\<rparr>)
        stacked_model = Inl (Propagated ''fusion'')
   \<and> snd (prepare_pt2e (passing_collaborators\<lparr>fuse_conv_bn := (\<lambda>m. Inl (Propagated ''fusion''))\<rparr>)
        stacked_model () () ()) = [Call_fuse_conv_bn stacked_model]"
proof -
  let ?failing = "passing_collaborators\<lparr>fuse_conv_bn := (\<lambda>m. Inl (Propagated ''fusion''))\<rparr>"
  have f: "fuse_conv_bn passing_collaborators stacked_model = Inr stacked_model"
    by (simp add: passing_collaborators_simps)
  have g: "fuse_conv_bn ?failing stacked_model = Inl (Propagated ''fusion'')"
    by simp
  note ok = mp [OF fusion_precedes_prepare
      [where ext = passing_collaborators and model = stacked_model
         and ?model1.0 = stacked_model and q = "()" and e = "()" and b = "()",
       THEN conjunct2, THEN conjunct2, THEN conjunct1] f]
  note ko = mp [OF fusion_precedes_prepare
      [where ext = ?failing and model = stacked_model and err = "Propagated ''fusion''"
         and q = "()" and e = "()" and b = "()",
       THEN conjunct2, THEN conjunct2, THEN conjunct2] g]
  show ?thesis
    by (intro conjI) (rule f g ok [THEN conjunct1] ok [THEN conjunct2] ko)+
qed

text \<open>
  The claim as stated fails: with collaborators that all return, the prepare stage is
  called, the only call before it is \<^verbatim>\<open>_fuse_conv_bn_\<close>, and no call of
  \<^verbatim>\<open>_fuse_conv_bn_qat\<close> is made by \<open>prepare_pt2e\<close> at all.
\<close>

theorem prepare_pt2e_makes_no_qat_fusion_call:
  "filter is_prepare_call (snd (prepare_pt2e passing_collaborators stacked_model () () ())) \<noteq> []
   \<and> calls_before_prepare (snd (prepare_pt2e passing_collaborators stacked_model () () ()))
       = [Call_fuse_conv_bn stacked_model]
   \<and> Call_fuse_conv_bn_qat stacked_model
       \<notin> set (snd (prepare_pt2e passing_collaborators stacked_model () () ()))"
  by (simp add: prepare_pt2e_log passing_collaborators_simps calls_before_prepare_def)

end
